theory Spec2Isabelle
  imports Complex_Main
begin

section \<open>Time values\<close>

text \<open>
  \<^verbatim>\<open>get_pi_data.py\<close> computes with Python's \<^verbatim>\<open>datetime\<close> and \<^verbatim>\<open>timedelta\<close>. Both are
  exact counts of microseconds: a \<^verbatim>\<open>timedelta\<close> is a signed number of microseconds, a
  naive \<^verbatim>\<open>datetime\<close> is the number of microseconds since 0001-01-01 00:00:00 of the
  proleptic Gregorian calendar. Addition, subtraction and comparison of the Python
  values are addition, subtraction and comparison of these integers. The range of a
  \<^verbatim>\<open>datetime\<close> (years 1 to 9999) is not modelled: an \<^verbatim>\<open>OverflowError\<close> of the
  arithmetic at the edge of the calendar is outside this development. The range of a
  \<^verbatim>\<open>timedelta\<close> (a magnitude of at most 999999999 days) is checked where the program
  makes one out of numbers it has read, in \<^verbatim>\<open>parse_time\<close>.
\<close>

type_synonym timedelta = int
type_synonym datetime = int

text \<open>
  Every exception the program can meet is a value. \<open>ComError\<close> stands for whatever the
  database provider raises when a connection is opened or a statement is executed.
\<close>

datatype py_error =
  ZeroDivisionError | FileNotFoundError | NameError | TypeError | ComError
  | OverflowError | ValueError

text \<open>The microseconds of \<^verbatim>\<open>timedelta(days=.., hours=.., minutes=.., seconds=..)\<close>; a
  keyword that is left out is 0.\<close>

definition timedelta :: "int \<Rightarrow> int \<Rightarrow> int \<Rightarrow> int \<Rightarrow> timedelta" where
  "timedelta days hours minutes seconds =
     (((days * 24 + hours) * 60 + minutes) * 60 + seconds) * 1000000"

text \<open>The constructor itself: it raises \<^verbatim>\<open>OverflowError\<close> when the whole days of the
  value are outside \<open>-999999999\<close> to \<open>999999999\<close>.\<close>

definition timedelta_new :: "int \<Rightarrow> int \<Rightarrow> int \<Rightarrow> int \<Rightarrow> py_error + timedelta" where
  "timedelta_new days hours minutes seconds =
     (let us = timedelta days hours minutes seconds;
          whole_days = us div 86400000000
      in if whole_days < - 999999999 \<or> 999999999 < whole_days then Inl OverflowError
         else Inr us)"

text \<open>\<^verbatim>\<open>delta / 2\<close>: true division of a \<^verbatim>\<open>timedelta\<close> by an integer rounds the
  microseconds to the nearest integer, a tie to the even one.\<close>

definition td_half :: "timedelta \<Rightarrow> timedelta" where
  "td_half delta =
     (let q = delta div 2; r = delta mod 2
      in if r = 1 \<and> q mod 2 = 1 then q + 1 else q)"

subsection \<open>The calendar\<close>

definition is_leap :: "int \<Rightarrow> bool" where
  "is_leap year = (year mod 4 = 0 \<and> (year mod 100 \<noteq> 0 \<or> year mod 400 = 0))"

definition days_in_month_tab :: "int \<Rightarrow> int" where
  "days_in_month_tab month = [-1, 31, 28, 31, 30, 31, 30, 31, 31, 30, 31, 30, 31] ! nat month"

definition days_before_month_tab :: "int \<Rightarrow> int" where
  "days_before_month_tab month =
     [-1, 0, 31, 59, 90, 120, 151, 181, 212, 243, 273, 304, 334] ! nat month"

definition days_before_year :: "int \<Rightarrow> int" where
  "days_before_year year =
     (let y = year - 1 in y * 365 + y div 4 - y div 100 + y div 400)"

definition days_before_month :: "int \<Rightarrow> int \<Rightarrow> int" where
  "days_before_month year month =
     days_before_month_tab month + (if month > 2 \<and> is_leap year then 1 else 0)"

definition ymd2ord :: "int \<Rightarrow> int \<Rightarrow> int \<Rightarrow> int" where
  "ymd2ord year month day = days_before_year year + days_before_month year month + day"

text \<open>\<^verbatim>\<open>datetime(year, month, day, hour, minute, second, microsecond)\<close>.\<close>

definition datetime :: "int \<Rightarrow> int \<Rightarrow> int \<Rightarrow> int \<Rightarrow> int \<Rightarrow> int \<Rightarrow> int \<Rightarrow> datetime" where
  "datetime year month day hour minute second microsecond =
     (((ymd2ord year month day - 1) * 24 + hour) * 60 + minute) * 60000000
       + second * 1000000 + microsecond"

text \<open>The day number back to year, month and day, by the 400, 100, 4 and 1 year
  cycles of the calendar.\<close>

definition ord2ymd :: "int \<Rightarrow> int \<times> int \<times> int" where
  "ord2ymd ordinal =
     (let n = ordinal - 1;
          n400 = n div 146097; n_a = n mod 146097;
          n100 = n_a div 36524; n_b = n_a mod 36524;
          n4 = n_b div 1461; n_c = n_b mod 1461;
          n1 = n_c div 365; n_d = n_c mod 365;
          year = n400 * 400 + 1 + n100 * 100 + n4 * 4 + n1
      in if n1 = 4 \<or> n100 = 4 then (year - 1, 12, 31)
         else
           let leapyear = (n1 = 3 \<and> (n4 \<noteq> 24 \<or> n100 = 3));
               month = (n_d + 50) div 32;
               preceding = days_before_month_tab month
                            + (if month > 2 \<and> leapyear then 1 else 0)
           in if preceding > n_d
              then (year, month - 1,
                    n_d - (preceding - (days_in_month_tab (month - 1)
                             + (if month - 1 = 2 \<and> leapyear then 1 else 0))) + 1)
              else (year, month, n_d - preceding + 1))"

definition digit_char :: "int \<Rightarrow> char" where
  "digit_char k = ''0123456789'' ! nat k"

definition pad2 :: "int \<Rightarrow> string" where
  "pad2 n = [digit_char (n div 10 mod 10), digit_char (n mod 10)]"

definition pad4 :: "int \<Rightarrow> string" where
  "pad4 n = pad2 (n div 100) @ pad2 (n mod 100)"

text \<open>\<^verbatim>\<open>d.strftime('%d.%m.%Y  %H:%M:%S')\<close>: day, month, year, then hour, minute and
  second, zero padded; the microseconds are not printed. (The year is printed with four
  digits, as it is for every year from 1000 on.)\<close>

definition strftime :: "datetime \<Rightarrow> string" where
  "strftime d =
     (let secs = d div 1000000;
          (year, month, day) = ord2ymd (secs div 86400 + 1);
          sod = secs mod 86400
      in pad2 day @ ''.'' @ pad2 month @ ''.'' @ pad4 year @ ''  ''
         @ pad2 (sod div 3600) @ '':'' @ pad2 (sod mod 3600 div 60) @ '':'' @ pad2 (sod mod 60))"

section \<open>The duration parser\<close>

text \<open>
  \<^verbatim>\<open>parse_time\<close> matches its argument against the regular expression
  \<^verbatim>\<open>((?P<days>\d+?)d)?((?P<hours>\d+?)hr)?((?P<minutes>\d+?)m)?((?P<seconds>\d+?)s)?\<close>
  with \<^verbatim>\<open>regex.match\<close>, which anchors the match at the start of the string and not at
  its end. Each of the four groups is optional and is tried before it is skipped; a
  group is a run of digits, as short as possible, followed by its unit. No unit starts
  with a digit, so a group that matches takes the whole run of digits in front of the
  unit, and it matches exactly when that run is not empty and the unit follows it.
  What comes after a group can always match (the empty string at worst), so the
  matcher never goes back on a group it has taken. Characters are ASCII here:
  \<^verbatim>\<open>\d\<close> is one of 0 to 9.
\<close>

definition isdigit :: "char \<Rightarrow> bool" where
  "isdigit c = (c \<in> set ''0123456789'')"

definition digit_value :: "char \<Rightarrow> int" where
  "digit_value c = int (of_char c) - 48"

text \<open>The number that a run of digits denotes, and \<^verbatim>\<open>int(param)\<close> on a run of
  digits: Python (3.11, and the later releases of 3.7 to 3.10) refuses a string of more
  than 4300 digits with \<^verbatim>\<open>ValueError\<close>.\<close>

definition int_of_digits :: "string \<Rightarrow> int" where
  "int_of_digits ds = foldl (\<lambda>acc c. 10 * acc + digit_value c) 0 ds"

definition py_int :: "string \<Rightarrow> py_error + int" where
  "py_int p = (if 4300 < length p then Inl ValueError else Inr (int_of_digits p))"

definition startswith :: "string \<Rightarrow> string \<Rightarrow> bool" where
  "startswith s prefix = (take (length prefix) s = prefix)"

text \<open>One optional group \<^verbatim>\<open>((?P<name>\d+?)unit)?\<close> at the front of \<open>s\<close>: the text
  of the named group (\<open>None\<close> when the group takes no part in the match) and the rest
  of the string.\<close>

definition regex_group :: "string \<Rightarrow> string \<Rightarrow> string option \<times> string" where
  "regex_group unit s =
     (let ds = takeWhile isdigit s; rest = dropWhile isdigit s
      in if ds \<noteq> [] \<and> startswith rest unit
         then (Some ds, drop (length unit) rest)
         else (None, s))"

record groupdict =
  days :: "string option"
  hours :: "string option"
  minutes :: "string option"
  seconds :: "string option"

text \<open>\<^verbatim>\<open>regex.match(time_str)\<close>, then \<^verbatim>\<open>groupdict()\<close>. \<open>None\<close> stands for no match;
  this expression matches every string.\<close>

definition regex_match :: "string \<Rightarrow> groupdict option" where
  "regex_match time_str =
     (let (g1, s1) = regex_group ''d'' time_str;
          (g2, s2) = regex_group ''hr'' s1;
          (g3, s3) = regex_group ''m'' s2;
          (g4, s4) = regex_group ''s'' s3
      in Some \<lparr>days = g1, hours = g2, minutes = g3, seconds = g4\<rparr>)"


text \<open>An entry of \<^verbatim>\<open>time_params\<close>: set to \<^verbatim>\<open>int(param)\<close> when \<^verbatim>\<open>param\<close> is a
  non-empty string, absent (so 0 in \<^verbatim>\<open>timedelta\<close>) otherwise.\<close>

definition time_param :: "string option \<Rightarrow> py_error + int" where
  "time_param param =
     (case param of None \<Rightarrow> Inr 0 | Some p \<Rightarrow> if p \<noteq> [] then py_int p else Inr 0)"

text \<open>\<^verbatim>\<open>parse_time\<close>: the entries are converted in the order of the groups, then the
  \<^verbatim>\<open>timedelta\<close> is made. \<open>Inr None\<close> is the bare \<^verbatim>\<open>return\<close> taken when there is no
  match, \<open>Inl\<close> an exception of \<^verbatim>\<open>int\<close> or of \<^verbatim>\<open>timedelta\<close>.\<close>

definition parse_time :: "string \<Rightarrow> py_error + timedelta option" where
  "parse_time time_str =
     (case regex_match time_str of
        None \<Rightarrow> Inr None
      | Some parts \<Rightarrow>
          (case time_param (days parts) of
             Inl err \<Rightarrow> Inl err
           | Inr n_days \<Rightarrow>
          (case time_param (hours parts) of
             Inl err \<Rightarrow> Inl err
           | Inr n_hours \<Rightarrow>
          (case time_param (minutes parts) of
             Inl err \<Rightarrow> Inl err
           | Inr n_minutes \<Rightarrow>
          (case time_param (seconds parts) of
             Inl err \<Rightarrow> Inl err
           | Inr n_seconds \<Rightarrow>
          (case timedelta_new n_days n_hours n_minutes n_seconds of
             Inl err \<Rightarrow> Inl err
           | Inr delta \<Rightarrow> Inr (Some delta)))))))"

section \<open>The historian, the output files and the console\<close>

text \<open>A row of a record set: tag, time (as the historian formats it) and value. The
  values are Python floats; they are modelled by the real numbers they denote, so the
  rounding of float addition and division is not part of the model.\<close>

type_synonym row = "string \<times> string \<times> real"

text \<open>What \<^verbatim>\<open>connection.Execute\<close> hands back: the two position flags and the rows that
  \<^verbatim>\<open>zip(*rs.GetRows())\<close> runs through. A record set with no row has both flags set.\<close>

record recordset =
  BOF :: bool
  EOF :: bool
  GetRows :: "row list"

text \<open>An open connection answers the select statement built from a tag and the two
  time strings with a record set, or raises. The provider opens a connection for a
  user on a server, or raises.\<close>

type_synonym connection = "string \<Rightarrow> string \<Rightarrow> string \<Rightarrow> py_error + recordset"
type_synonym provider = "string \<Rightarrow> string \<Rightarrow> py_error + connection"

text \<open>An output file is the list of the lines written to it; a line
  \<^verbatim>\<open>'%s  %s  %.5e\n'\<close> is kept as the three values it prints. No line is empty, so a
  file has zero bytes exactly when it has no line.\<close>

type_synonym filesystem = "string \<rightharpoonup> row list"

datatype printed = Str string | Time datetime

text \<open>The state the program works on: the output files, the lines of \<^verbatim>\<open>tag.list\<close>
  (if that file is there), the calls of \<^verbatim>\<open>adodb_query\<close> made so far (tag, start time,
  end time) and what was printed, one entry for each \<^verbatim>\<open>print\<close>.\<close>

record world =
  files :: filesystem
  tag_list :: "string list option"
  queries :: "(string \<times> string \<times> string) list"
  stdout :: "printed list list"

definition abodb_connect :: "provider \<Rightarrow> string \<Rightarrow> string \<Rightarrow> py_error + connection" where
  "abodb_connect prov userid server = prov userid server"

definition adodb_query :: "connection \<Rightarrow> string \<Rightarrow> string \<Rightarrow> string \<Rightarrow> py_error + recordset" where
  "adodb_query connection tag startTime endTime = connection tag startTime endTime"

definition isfile :: "string \<Rightarrow> filesystem \<Rightarrow> bool" where
  "isfile filename fs = (fs filename \<noteq> None)"

text \<open>\<^verbatim>\<open>open(filename, action)\<close> for the two actions the program uses: \<^verbatim>\<open>'w'\<close> creates
  the file or empties it, \<^verbatim>\<open>'a'\<close> creates it when it is missing and keeps it
  otherwise.\<close>

definition py_open :: "string \<Rightarrow> string \<Rightarrow> filesystem \<Rightarrow> filesystem" where
  "py_open filename action fs =
     (if action = ''w'' then fs(filename \<mapsto> [])
      else (case fs filename of None \<Rightarrow> fs(filename \<mapsto> []) | Some content \<Rightarrow> fs))"

definition f_write :: "string \<Rightarrow> row \<Rightarrow> filesystem \<Rightarrow> filesystem" where
  "f_write filename item fs =
     (case fs filename of None \<Rightarrow> fs | Some content \<Rightarrow> fs(filename \<mapsto> content @ [item]))"

section \<open>Export of one packet\<close>

definition export :: "recordset \<Rightarrow> string \<Rightarrow> string \<Rightarrow> filesystem \<Rightarrow> filesystem" where
  "export rs filename action fs =
     (let f = py_open filename action fs
      in if \<not> (BOF rs \<or> EOF rs)
         then foldl (\<lambda>fs' item. f_write filename item fs') f (GetRows rs)
         else f)"

text \<open>The loop of \<^verbatim>\<open>export_average\<close>: the tag name of the row seen last (none before
  the first row), the running sum and the count.\<close>

definition average_rows :: "row list \<Rightarrow> string option \<times> real \<times> nat" where
  "average_rows rows =
     foldl (\<lambda>(tagname, ave, num) (t, d, v). (Some t, ave + v, num + 1)) (None, 0, 0) rows"

text \<open>\<^verbatim>\<open>export_average\<close> returns the files as it leaves them and the exception it
  raises, if any. The file is opened before anything else, so it is created (or, with
  action \<^verbatim>\<open>'w'\<close>, emptied) also when an exception follows.\<close>

definition export_average ::
  "recordset \<Rightarrow> string \<Rightarrow> string \<Rightarrow> string \<Rightarrow> filesystem \<Rightarrow> filesystem \<times> py_error option" where
  "export_average rs filename action a_date fs =
     (let f = py_open filename action fs
      in if \<not> (BOF rs \<or> EOF rs)
         then (case average_rows (GetRows rs) of
                 (tagname, ave, num) \<Rightarrow>
                   if num = 0 then (f, Some ZeroDivisionError)
                   else (case tagname of
                           None \<Rightarrow> (f, Some NameError)
                         | Some t \<Rightarrow> (f_write filename (t, a_date, ave / real num) f, None)))
         else (f, None))"

section \<open>Fetching one tag in packets\<close>

text \<open>One turn of the loop of \<^verbatim>\<open>getTag\<close>, from the cursor \<open>d\<close>: the query for
  \<^verbatim>\<open>date1\<close> to \<^verbatim>\<open>date2\<close> is sent after the cursor has moved on by \<open>delta\<close>, and
  whatever the query or the export raises is dropped by \<^verbatim>\<open>except: pass\<close>. The result
  is the new cursor and the new state.\<close>

definition packet_step ::
  "connection \<Rightarrow> string \<Rightarrow> string \<Rightarrow> timedelta \<Rightarrow> bool \<Rightarrow> datetime \<Rightarrow> world \<Rightarrow> datetime \<times> world" where
  "packet_step connection tag filename delta average d w =
     (let date1 = strftime d;
          d' = d + delta;
          date2 = strftime d';
          action = (if isfile filename (files w) then ''a'' else ''w'');
          w1 = w\<lparr>queries := queries w @ [(tag, date1, date2)]\<rparr>
      in case adodb_query connection tag date1 date2 of
           Inl err \<Rightarrow> (d', w1)
         | Inr recordSet \<Rightarrow>
             if average
             then (d', w1\<lparr>files := fst (export_average recordSet filename action
                                          (strftime (d' - td_half delta)) (files w1))\<rparr>)
             else (d', w1\<lparr>files := export recordSet filename action (files w1)\<rparr>))"

text \<open>\<^verbatim>\<open>while d < endTime\<close>. The loop need not end: \<open>None\<close> is the run that never
  leaves it.\<close>

partial_function (option) packet_loop ::
  "connection \<Rightarrow> string \<Rightarrow> string \<Rightarrow> datetime \<Rightarrow> timedelta \<Rightarrow> bool \<Rightarrow> datetime \<Rightarrow> world \<Rightarrow> world option"
where
  "packet_loop connection tag filename endTime delta average d w =
     (if d < endTime
      then (case packet_step connection tag filename delta average d w of
              (d', w') \<Rightarrow> packet_loop connection tag filename endTime delta average d' w')
      else Some w)"

definition output_name :: "string \<Rightarrow> string \<Rightarrow> string" where
  "output_name ident tag = ident @ map (\<lambda>c. if c = CHR ''/'' then CHR ''_'' else c) tag @ ''.txt''"

text \<open>What follows the loop: \<^verbatim>\<open>os.stat(filename).st_size == 0\<close> raises when the file
  is not there; an empty file is removed. The result is the new state with the flag
  \<^verbatim>\<open>isEmpty\<close>, or with the exception that ends the call.\<close>

definition size_check :: "string \<Rightarrow> world \<Rightarrow> world \<times> (py_error + bool)" where
  "size_check filename w =
     (case files w filename of
        None \<Rightarrow> (w, Inl FileNotFoundError)
      | Some content \<Rightarrow>
          let isEmpty = (content = [])
          in if isEmpty then (w\<lparr>files := (files w)(filename := None)\<rparr>, Inr isEmpty)
             else (w, Inr isEmpty))"

definition getTag ::
  "provider \<Rightarrow> string \<Rightarrow> datetime \<Rightarrow> datetime \<Rightarrow> string \<Rightarrow> timedelta \<Rightarrow> bool \<Rightarrow> string \<Rightarrow> string
     \<Rightarrow> world \<Rightarrow> (world \<times> (py_error + bool)) option" where
  "getTag prov tag startTime endTime ident packetsize average usr srv w =
     (case abodb_connect prov usr srv of
        Inl err \<Rightarrow> Some (w, Inl err)
      | Inr connection \<Rightarrow>
          let delta = packetsize;
              filename = output_name ident tag
          in (case packet_loop connection tag filename endTime delta average startTime w of
                None \<Rightarrow> None
              | Some w' \<Rightarrow> Some (size_check filename w')))"

section \<open>The extraction driver\<close>

text \<open>The characters that \<^verbatim>\<open>str.strip()\<close> removes, among the code points below 256:
  TAB to CR, the four separators \<open>0x1C\<close> to \<open>0x1F\<close>, the space, NEL and the no-break
  space. A character of the model is a code point below 256.\<close>

definition isspace :: "char \<Rightarrow> bool" where
  "isspace c = (c \<in> set [CHR 0x09, CHR 0x0A, CHR 0x0B, CHR 0x0C, CHR 0x0D,
                          CHR 0x1C, CHR 0x1D, CHR 0x1E, CHR 0x1F, CHR 0x20, CHR 0x85, CHR 0xA0])"

definition strip :: "string \<Rightarrow> string" where
  "strip s = rev (dropWhile isspace (rev (dropWhile isspace s)))"

text \<open>\<^verbatim>\<open>get_tags\<close> reads \<^verbatim>\<open>tag.list\<close>: the stripped lines that are not blank.\<close>

definition get_tags :: "world \<Rightarrow> py_error + string list" where
  "get_tags w =
     (case tag_list w of
        None \<Rightarrow> Inl FileNotFoundError
      | Some lines \<Rightarrow> Inr [strip l. l \<leftarrow> lines, length (strip l) \<noteq> 0])"

text \<open>The loop of \<^verbatim>\<open>extract_data\<close> over the tags: an exception of \<^verbatim>\<open>getTag\<close> ends
  the run, a call that never returns makes the run endless.\<close>

fun extract_tags ::
  "provider \<Rightarrow> string list \<Rightarrow> datetime \<Rightarrow> datetime \<Rightarrow> timedelta \<Rightarrow> bool \<Rightarrow> string \<Rightarrow> string
     \<Rightarrow> world \<Rightarrow> (world \<times> py_error option) option" where
  "extract_tags prov [] start stop packetsize average usr srv w = Some (w, None)"
| "extract_tags prov (tag # tags) start stop packetsize average usr srv w =
     (case getTag prov tag start stop [] packetsize average usr srv w of
        None \<Rightarrow> None
      | Some (w', Inl err) \<Rightarrow> Some (w', Some err)
      | Some (w', Inr isEmpty) \<Rightarrow>
          extract_tags prov tags start stop packetsize average usr srv
            (w'\<lparr>stdout := stdout w' @
                   [[Time start, Time stop, Str tag, Str (if isEmpty then ''Empty'' else ''Signal'')]]\<rparr>))"

definition extract_data ::
  "provider \<Rightarrow> datetime \<Rightarrow> datetime \<Rightarrow> timedelta \<Rightarrow> bool \<Rightarrow> string \<Rightarrow> string
     \<Rightarrow> world \<Rightarrow> (world \<times> py_error option) option" where
  "extract_data prov start stop packetsize average usr srv w =
     (case get_tags w of
        Inl err \<Rightarrow> Some (w, Some err)
      | Inr tags \<Rightarrow> extract_tags prov tags start stop packetsize average usr srv w)"

section \<open>The command line and the main program\<close>

text \<open>The arguments as \<^verbatim>\<open>argparse\<close> delivers them, defaults filled in. A time window
  and the packet size are results of \<^verbatim>\<open>parse_time\<close> (or the default of one day), so
  they are optional values; no subcommand at all leaves \<^verbatim>\<open>subparser_name\<close> unset.\<close>

datatype subcommand =
    Se datetime datetime
  | Sw datetime "timedelta option"
  | Ew datetime "timedelta option"

record args =
  verbose :: bool
  user :: string
  server :: string
  pave :: bool
  psize :: "timedelta option"
  subparser :: "subcommand option"

text \<open>Lines 268 to 273: start and end of the window. With no subcommand neither name
  is bound, and the test that follows raises; a window that is not a \<^verbatim>\<open>timedelta\<close>
  cannot be added to a \<^verbatim>\<open>datetime\<close>.\<close>

definition resolve_window :: "subcommand option \<Rightarrow> py_error + datetime \<times> datetime" where
  "resolve_window sub =
     (case sub of
        None \<Rightarrow> Inl NameError
      | Some (Se s e) \<Rightarrow> Inr (s, e)
      | Some (Sw s window) \<Rightarrow>
          (case window of None \<Rightarrow> Inl TypeError | Some wd \<Rightarrow> Inr (s, s + wd))
      | Some (Ew e window) \<Rightarrow>
          (case window of None \<Rightarrow> Inl TypeError | Some wd \<Rightarrow> Inr (e - wd, e)))"

text \<open>Lines 294 and 295: the packet size that goes into the extraction.\<close>

definition resolve_packet_size :: "datetime \<Rightarrow> datetime \<Rightarrow> timedelta \<Rightarrow> timedelta" where
  "resolve_packet_size start stop packet_size =
     (if stop - start < packet_size then stop - start else packet_size)"

datatype outcome = Finished | Exited | Raised py_error

definition main :: "provider \<Rightarrow> args \<Rightarrow> world \<Rightarrow> (world \<times> outcome) option" where
  "main prov a w =
     (case resolve_window (subparser a) of
        Inl err \<Rightarrow> Some (w, Raised err)
      | Inr (start, stop) \<Rightarrow>
          if stop < start
          then Some (w\<lparr>stdout := stdout w @ [[Str ''End time cannot be after start time!'']]
                          @ (if verbose a
                             then [[Str ''End time'', Time stop], [Str ''Start time'', Time start]]
                             else [])\<rparr>, Exited)
          else (case psize a of
                  None \<Rightarrow> Some (w, Raised TypeError)
                | Some packet_size \<Rightarrow>
                    let w1 = (if stop - start < packet_size \<and> verbose a
                              then w\<lparr>stdout := stdout w @
                                     [[Str ''Packet_size being reduced bigger than requested time window''],
                                      [Str ''Packet size being reduced accordingly'']]\<rparr>
                              else w)
                    in (case extract_data prov start stop
                               (resolve_packet_size start stop packet_size) (pave a)
                               (user a) (server a) w1 of
                          None \<Rightarrow> None
                        | Some (w', None) \<Rightarrow> Some (w', Finished)
                        | Some (w', Some err) \<Rightarrow> Some (w', Raised err))))"

section \<open>Closed forms used to state the results\<close>

text \<open>The number of turns the loop takes from \<open>start\<close> for a positive \<open>delta\<close>: the
  quotient of the window by the packet size, rounded up (0 for an empty window).\<close>

definition packet_count :: "datetime \<Rightarrow> datetime \<Rightarrow> timedelta \<Rightarrow> nat" where
  "packet_count start stop delta = nat ((stop - start + delta - 1) div delta)"

text \<open>The bounds of the first \<open>n\<close> packets, as values of the cursor before and after
  each step, and the query that is sent for a pair of bounds.\<close>

definition packet_bounds :: "datetime \<Rightarrow> timedelta \<Rightarrow> nat \<Rightarrow> (datetime \<times> datetime) list" where
  "packet_bounds start delta n =
     map (\<lambda>k. (start + int k * delta, start + (int k + 1) * delta)) [0..<n]"

definition packet_query :: "string \<Rightarrow> datetime \<times> datetime \<Rightarrow> string \<times> string \<times> string" where
  "packet_query tag p = (tag, strftime (fst p), strftime (snd p))"

text \<open>What is in a file, nothing for a file that is not there.\<close>

definition content_of :: "filesystem \<Rightarrow> string \<Rightarrow> row list" where
  "content_of fs filename = (case fs filename of None \<Rightarrow> [] | Some content \<Rightarrow> content)"

text \<open>The lines one packet adds to the output file, given the record set of its query
  and the time stamp of an averaged line.\<close>

definition packet_lines :: "bool \<Rightarrow> recordset \<Rightarrow> string \<Rightarrow> row list" where
  "packet_lines average rs a_date =
     (if BOF rs \<or> EOF rs then []
      else if average
           then (if GetRows rs = [] then []
                 else [(fst (last (GetRows rs)), a_date,
                        sum_list (map (\<lambda>item. snd (snd item)) (GetRows rs))
                          / real (length (GetRows rs)))])
           else GetRows rs)"


text \<open>Whether the query for a pair of bounds is answered with a record set.\<close>

definition answered :: "connection \<Rightarrow> string \<Rightarrow> datetime \<times> datetime \<Rightarrow> bool" where
  "answered connection tag p =
     (case adodb_query connection tag (strftime (fst p)) (strftime (snd p)) of
        Inl err \<Rightarrow> False | Inr rs \<Rightarrow> True)"

text \<open>The files after one packet, as a function of the files before it: a query that
  raises leaves them alone, a record set makes the output file exist and adds its
  lines.\<close>

definition packet_files ::
  "connection \<Rightarrow> string \<Rightarrow> string \<Rightarrow> timedelta \<Rightarrow> bool \<Rightarrow> filesystem \<Rightarrow> datetime \<times> datetime
     \<Rightarrow> filesystem" where
  "packet_files connection tag filename delta average fs p =
     (case adodb_query connection tag (strftime (fst p)) (strftime (snd p)) of
        Inl err \<Rightarrow> fs
      | Inr rs \<Rightarrow>
          fs(filename \<mapsto> content_of fs filename
               @ packet_lines average rs (strftime (snd p - td_half delta))))"

section \<open>The language of the duration pattern\<close>








section \<open>Example environments\<close>

text \<open>Concrete states and historians on which the results below are evaluated: a state
  with no file, no query sent and nothing printed; a connection on which every
  statement raises; one that answers every query with an empty record set; one that
  answers every query with three rows of values 1, 2 and 3; and the provider that opens a
  given connection for everybody.\<close>

definition world0 :: world where
  "world0 = \<lparr>files = Map.empty, tag_list = None, queries = [], stdout = []\<rparr>"

definition no_answer :: connection where
  "no_answer tag startTime endTime = Inl ComError"

definition no_samples :: connection where
  "no_samples tag startTime endTime = Inr \<lparr>BOF = True, EOF = True, GetRows = []\<rparr>"

definition three_samples :: connection where
  "three_samples tag startTime endTime =
     Inr \<lparr>BOF = False, EOF = False,
          GetRows = [(tag, ''07.04.2019 12:00:01.000'', 1),
                     (tag, ''07.04.2019 12:00:02.000'', 2),
                     (tag, ''07.04.2019 12:00:03.000'', 3)]\<rparr>"


definition open_provider :: "connection \<Rightarrow> provider" where
  "open_provider connection userid srv = Inr connection"

text \<open>A state in which the output file of the tag \<^verbatim>\<open>T\<close> is there already, with one
  line from an earlier run.\<close>

definition world1 :: world where
  "world1 = \<lparr>files = [''T.txt'' \<mapsto> [(''T'', ''06.04.2019 10:00:00.000'', 1)]],
             tag_list = None, queries = [], stdout = []\<rparr>"

text \<open>The arguments of a run from 12:00:00 to 12:00:00 with the defaults.\<close>

definition args0 :: args where
  "args0 = \<lparr>verbose = False, user = ''piadmin'', server = ''ONO-IMS'', pave = False,
            psize = Some (timedelta 1 0 0 0),
            subparser = Some (Se (datetime 2019 4 7 12 0 0 0) (datetime 2019 4 7 12 0 0 0))\<rparr>"

section \<open>Properties of the export and of the loop\<close>

lemma py_open_action:
  "py_open fn (if isfile fn fs then ''a'' else ''w'') fs = fs(fn \<mapsto> content_of fs fn)"
  by (auto simp: py_open_def isfile_def content_of_def split: option.splits)

lemma foldl_f_write:
  "fs fn = Some c0 \<Longrightarrow>
   foldl (\<lambda>fs' item. f_write fn item fs') fs rows = fs(fn \<mapsto> c0 @ rows)"
proof (induction rows arbitrary: fs c0)
  case Nil
  then show ?case by (simp add: map_upd_triv)
next
  case (Cons r rows)
  have "f_write fn r fs = fs(fn \<mapsto> c0 @ [r])" using Cons.prems by (simp add: f_write_def)
  moreover have "foldl (\<lambda>fs' item. f_write fn item fs') (fs(fn \<mapsto> c0 @ [r])) rows
                   = (fs(fn \<mapsto> c0 @ [r]))(fn \<mapsto> (c0 @ [r]) @ rows)"
    by (rule Cons.IH) simp
  ultimately show ?case by simp
qed

lemma average_rows_eq:
  "average_rows rows =
     (if rows = [] then None else Some (fst (last rows)),
      sum_list (map (\<lambda>item. snd (snd item)) rows), length rows)"
proof (induction rows rule: rev_induct)
  case Nil
  then show ?case by (simp add: average_rows_def)
next
  case (snoc r rows)
  then show ?case by (cases r) (simp add: average_rows_def)
qed

lemma export_eq:
  "action = (if isfile fn fs then ''a'' else ''w'') \<Longrightarrow>
   export rs fn action fs = fs(fn \<mapsto> content_of fs fn @ packet_lines False rs a_date)"
  by (simp add: export_def py_open_action packet_lines_def Let_def foldl_f_write)

lemma export_average_eq:
  "action = (if isfile fn fs then ''a'' else ''w'') \<Longrightarrow>
   fst (export_average rs fn action a_date fs)
     = fs(fn \<mapsto> content_of fs fn @ packet_lines True rs a_date)"
  by (simp add: export_average_def py_open_action packet_lines_def Let_def average_rows_eq f_write_def)

lemma packet_step_eq:
  "packet_step c tag fn delta avg d w =
     (d + delta,
      w\<lparr>queries := queries w @ [packet_query tag (d, d + delta)],
        files := (case adodb_query c tag (strftime d) (strftime (d + delta)) of
                    Inl err \<Rightarrow> files w
                  | Inr rs \<Rightarrow> (files w)(fn \<mapsto> content_of (files w) fn
                       @ packet_lines avg rs (strftime (d + delta - td_half delta))))\<rparr>)"
  by (simp add: packet_step_def Let_def packet_query_def export_eq export_average_eq
      split: sum.splits)

lemma packet_step_files:
  "packet_step c tag fn delta avg d w =
     (d + delta,
      w\<lparr>queries := queries w @ [packet_query tag (d, d + delta)],
        files := packet_files c tag fn delta avg (files w) (d, d + delta)\<rparr>)"
  by (simp add: packet_step_eq packet_files_def split: sum.splits)

lemma packet_count_empty: "0 < delta \<Longrightarrow> stop \<le> start \<Longrightarrow> packet_count start stop delta = 0"
proof -
  assume a: "0 < delta" "stop \<le> start"
  then have "stop - start + delta - 1 \<le> delta - 1" by simp
  then have "(stop - start + delta - 1) div delta \<le> (delta - 1) div delta"
    using a(1) by (rule zdiv_mono1)
  then have "(stop - start + delta - 1) div delta \<le> 0"
    using a(1) by (simp add: div_pos_pos_trivial)
  then show ?thesis by (simp add: packet_count_def)
qed

lemma packet_count_step:
  assumes "0 < delta" "start < stop"
  shows "packet_count start stop delta = Suc (packet_count (start + delta) stop delta)"
proof -
  let ?x = "stop - start - 1"
  have x: "0 \<le> ?x" using assms by simp
  have e: "stop - start + delta - 1 = ?x + delta" by simp
  have "(stop - start + delta - 1) div delta = ?x div delta + 1"
    unfolding e using assms(1) by simp
  moreover have "stop - (start + delta) + delta - 1 = ?x" by simp
  moreover have "0 \<le> ?x div delta" using x assms(1) by (simp add: pos_imp_zdiv_nonneg_iff)
  ultimately show ?thesis by (simp add: packet_count_def nat_add_distrib)
qed

lemma packet_bounds_Suc:
  "packet_bounds start delta (Suc n) = (start, start + delta) # packet_bounds (start + delta) delta n"
proof -
  have "[0..<Suc n] = 0 # map Suc [0..<n]"
    by (simp only: map_Suc_upt upt_conv_Cons[of 0 "Suc n", OF zero_less_Suc])
  then show ?thesis by (simp add: packet_bounds_def comp_def algebra_simps del: upt_Suc)
qed

lemma packet_loop_closed_form:
  assumes pos: "0 < delta"
  shows "packet_loop c tag fn stop delta avg start w =
           Some (w\<lparr>queries := queries w @ map (packet_query tag)
                               (packet_bounds start delta (packet_count start stop delta)),
                   files := foldl (packet_files c tag fn delta avg) (files w)
                               (packet_bounds start delta (packet_count start stop delta))\<rparr>)"
proof (induction "nat (stop - start)" arbitrary: start w rule: less_induct)
  case less
  show ?case
  proof (cases "start < stop")
    case False
    then have "packet_count start stop delta = 0" using pos by (simp add: packet_count_empty)
    moreover have "packet_loop c tag fn stop delta avg start w = Some w"
      using False by (subst packet_loop.simps) simp
    ultimately show ?thesis by (simp add: packet_bounds_def)
  next
    case True
    let ?w1 = "w\<lparr>queries := queries w @ [packet_query tag (start, start + delta)],
                  files := packet_files c tag fn delta avg (files w) (start, start + delta)\<rparr>"
    have unfold: "packet_loop c tag fn stop delta avg start w
                    = packet_loop c tag fn stop delta avg (start + delta) ?w1"
      using True by (subst packet_loop.simps) (simp add: packet_step_files)
    have "nat (stop - (start + delta)) < nat (stop - start)" using pos True by simp
    from less.hyps[OF this, of ?w1] unfold
    show ?thesis
      by (simp add: packet_count_step[OF pos True] packet_bounds_Suc)
  qed
qed

lemma fst_packet_step: "fst (packet_step c tag fn delta avg d w) = d + delta"
  by (simp add: packet_step_def Let_def split: sum.splits)

lemma packet_loop_Some_progress:
  assumes "packet_loop c tag fn stop delta avg d w = Some y"
  shows "\<not> (delta \<le> 0 \<and> d < stop)"
proof (rule packet_loop.raw_induct
    [where P = "\<lambda>c tag fn stop delta avg d w y. \<not> (delta \<le> 0 \<and> d < stop)", OF _ assms])
  fix f :: "connection \<Rightarrow> string \<Rightarrow> string \<Rightarrow> datetime \<Rightarrow> timedelta \<Rightarrow> bool \<Rightarrow> datetime \<Rightarrow> world \<Rightarrow> world option"
  fix c tag fn stop delta avg d w y
  assume IH: "\<And>c tag fn stop delta avg d w y.
      f c tag fn stop delta avg d w = Some y \<Longrightarrow> \<not> (delta \<le> 0 \<and> d < stop)"
  assume body: "(if d < stop
      then case packet_step c tag fn delta avg d w of (d', w') \<Rightarrow> f c tag fn stop delta avg d' w'
      else Some w) = Some y"
  show "\<not> (delta \<le> 0 \<and> d < stop)"
  proof
    assume a: "delta \<le> 0 \<and> d < stop"
    obtain d' w' where s: "packet_step c tag fn delta avg d w = (d', w')"
      by (cases "packet_step c tag fn delta avg d w")
    with fst_packet_step[of c tag fn delta avg d w] have d': "d' = d + delta" by simp
    from body a s have "f c tag fn stop delta avg d' w' = Some y" by simp
    from IH[OF this] a d' show False by simp
  qed
qed

lemma packet_loop_diverges:
  assumes "delta \<le> 0" "d < stop"
  shows "packet_loop c tag fn stop delta avg d w = None"
  using packet_loop_Some_progress[of c tag fn stop delta avg d w] assms
  by (cases "packet_loop c tag fn stop delta avg d w") auto

section \<open>Evaluation on concrete inputs\<close>

lemmas parse_time_eval =
  parse_time_def regex_match_def regex_group_def startswith_def isdigit_def time_param_def
  py_int_def timedelta_new_def timedelta_def
  int_of_digits_def digit_value_def Let_def

lemmas datetime_eval =
  datetime_def ymd2ord_def days_before_year_def days_before_month_def
  days_before_month_tab_def is_leap_def timedelta_def Let_def

lemmas strftime_eval =
  strftime_def ord2ymd_def days_before_month_tab_def days_in_month_tab_def pad2_def pad4_def
  digit_char_def Let_def

section \<open>Resolution of the time window\<close>

text \<open>
  Claim C8. In the \<^verbatim>\<open>sw\<close> mode the window starts at the start that was given and ends
  one duration later; in the \<^verbatim>\<open>ew\<close> mode it ends at the end that was given and starts
  one duration earlier. A start of 2019-04-07 12:00:00 with the window \<^verbatim>\<open>10m\<close> ends at
  2019-04-07 12:10:00, and an end of 2019-04-07 12:10:00 with the window \<^verbatim>\<open>10m\<close> starts
  at 2019-04-07 12:00:00.
\<close>

theorem resolve_window_sw_ew:
  "resolve_window (Some (Sw s (Some wd))) = Inr (s, s + wd)
   \<and> resolve_window (Some (Ew e (Some wd))) = Inr (e - wd, e)
   \<and> parse_time ''10m'' = Inr (Some (timedelta 0 0 10 0))
   \<and> resolve_window (Some (Sw (datetime 2019 4 7 12 0 0 0) (Some (timedelta 0 0 10 0))))
       = Inr (datetime 2019 4 7 12 0 0 0, datetime 2019 4 7 12 10 0 0)
   \<and> resolve_window (Some (Ew (datetime 2019 4 7 12 10 0 0) (Some (timedelta 0 0 10 0))))
       = Inr (datetime 2019 4 7 12 0 0 0, datetime 2019 4 7 12 10 0 0)"
proof -
  have p: "parse_time ''10m'' = Inr (Some (timedelta 0 0 10 0))"
    by (simp add: parse_time_eval)
  have a: "datetime 2019 4 7 12 0 0 0 = 63690235200000000"
    by (simp add: datetime_eval)
  have b: "datetime 2019 4 7 12 10 0 0 = 63690235800000000"
    by (simp add: datetime_eval)
  show ?thesis
    unfolding p a b by (simp add: resolve_window_def timedelta_def)
qed


section \<open>The duration parser reads the pattern\<close>

lemma regex_group_Nil: "regex_group unit [] = (None, [])"
  by (simp add: regex_group_def)






lemma timedelta_zero: "timedelta 0 0 0 0 = 0"
  by (simp add: timedelta_def)



















section \<open>The packets of a window\<close>

lemma packet_count_bounds:
  assumes "0 < delta" "start < stop"
  shows "0 < packet_count start stop delta
         \<and> start + (int (packet_count start stop delta) - 1) * delta < stop
         \<and> stop \<le> start + int (packet_count start stop delta) * delta"
proof -
  let ?N = "stop - start + delta - 1"
  let ?q = "?N div delta" and ?r = "?N mod delta"
  have N: "?N = ?q * delta + ?r" by simp
  have r: "0 \<le> ?r" "?r < delta" using assms(1) by simp_all
  have "0 < ?q" using assms pos_imp_zdiv_pos_iff[of delta ?N] by simp
  then have q: "1 \<le> ?q" by simp
  then have n: "int (packet_count start stop delta) = ?q" by (simp add: packet_count_def)
  have "(?q - 1) * delta = ?q * delta - delta" by (simp add: algebra_simps)
  with N r have "start + (?q - 1) * delta < stop" "stop \<le> start + ?q * delta" by linarith+
  moreover have "0 < packet_count start stop delta" using q by (simp add: packet_count_def)
  ultimately show ?thesis unfolding n by simp
qed

lemma packet_bounds_nth:
  "i < n \<Longrightarrow>
   packet_bounds start delta n ! i = (start + int i * delta, start + (int i + 1) * delta)"
  by (simp add: packet_bounds_def)

lemma length_packet_bounds: "length (packet_bounds start delta n) = n"
  by (simp add: packet_bounds_def)

lemma packet_bounds_properties:
  assumes "0 < delta" "start < stop"
  shows "packet_bounds start delta (packet_count start stop delta) \<noteq> []
         \<and> fst (hd (packet_bounds start delta (packet_count start stop delta))) = start
         \<and> stop \<le> snd (last (packet_bounds start delta (packet_count start stop delta)))
         \<and> (\<forall>p \<in> set (packet_bounds start delta (packet_count start stop delta)).
               snd p - fst p = delta \<and> fst p < stop)
         \<and> (\<forall>i. Suc i < length (packet_bounds start delta (packet_count start stop delta)) \<longrightarrow>
               snd (packet_bounds start delta (packet_count start stop delta) ! i)
                 = fst (packet_bounds start delta (packet_count start stop delta) ! Suc i))"
proof -
  let ?n = "packet_count start stop delta"
  let ?ps = "packet_bounds start delta ?n"
  from packet_count_bounds[OF assms]
  have n: "0 < ?n" and lo: "start + (int ?n - 1) * delta < stop"
    and hi: "stop \<le> start + int ?n * delta" by simp_all
  have ne: "?ps \<noteq> []" using n length_packet_bounds[of start delta ?n] by auto
  have hd: "fst (hd ?ps) = start"
    using n packet_bounds_nth[of 0 ?n start delta] ne by (simp add: hd_conv_nth)
  have "last ?ps = ?ps ! (?n - 1)" using ne by (simp add: last_conv_nth length_packet_bounds)
  then have "snd (last ?ps) = start + (int (?n - 1) + 1) * delta"
    using n by (simp add: packet_bounds_nth)
  moreover have "int (?n - 1) + 1 = int ?n" using n by simp
  ultimately have last: "stop \<le> snd (last ?ps)" using hi by simp
  have each: "snd p - fst p = delta \<and> fst p < stop" if "p \<in> set ?ps" for p
  proof -
    from that obtain k where k: "k < ?n" and p: "p = (start + int k * delta, start + (int k + 1) * delta)"
      by (auto simp: packet_bounds_def)
    have "int k \<le> int ?n - 1" using k by simp
    then have "int k * delta \<le> (int ?n - 1) * delta" using assms(1) by (simp add: mult_right_mono)
    with lo p show ?thesis by (simp add: algebra_simps)
  qed
  have cons: "snd (?ps ! i) = fst (?ps ! Suc i)" if "Suc i < length ?ps" for i
    using that by (simp add: length_packet_bounds packet_bounds_nth)
  from ne hd last each cons show ?thesis by blast
qed

lemma last_packet_bound:
  assumes "0 < delta" "start < stop"
  shows "snd (last (packet_bounds start delta (packet_count start stop delta)))
           = start + int (packet_count start stop delta) * delta"
proof -
  let ?n = "packet_count start stop delta"
  let ?ps = "packet_bounds start delta ?n"
  from packet_count_bounds[OF assms] have n: "0 < ?n" by simp
  then have ne: "?ps \<noteq> []" using length_packet_bounds[of start delta ?n] by auto
  then have "last ?ps = ?ps ! (?n - 1)" by (simp add: last_conv_nth length_packet_bounds)
  then have "snd (last ?ps) = start + (int (?n - 1) + 1) * delta"
    using n by (simp add: packet_bounds_nth)
  moreover have "int (?n - 1) + 1 = int ?n" using n by simp
  ultimately show ?thesis by simp
qed

lemma last_packet_properties:
  assumes "0 < delta" "start < stop"
  shows "snd (last (packet_bounds start delta (packet_count start stop delta))) < stop + delta
         \<and> (snd (last (packet_bounds start delta (packet_count start stop delta))) = stop
              \<longleftrightarrow> delta dvd stop - start)"
proof -
  let ?n = "int (packet_count start stop delta)"
  from packet_count_bounds[OF assms]
  have lo: "start + (?n - 1) * delta < stop" and hi: "stop \<le> start + ?n * delta" by simp_all
  have e: "(?n - 1) * delta = ?n * delta - delta" by (simp add: algebra_simps)
  have l: "snd (last (packet_bounds start delta (packet_count start stop delta)))
             = start + ?n * delta"
    by (rule last_packet_bound[OF assms])
  have a: "start + ?n * delta < stop + delta" using lo e by linarith
  have b: "start + ?n * delta = stop \<longleftrightarrow> delta dvd stop - start"
  proof
    assume "start + ?n * delta = stop"
    then have "stop - start = delta * ?n" by (simp add: algebra_simps)
    then show "delta dvd stop - start" by simp
  next
    assume "delta dvd stop - start"
    then obtain k where k: "stop - start = delta * k" by (auto simp: dvd_def)
    from lo e k have "delta * (?n - 1) < delta * k" by (simp add: algebra_simps)
    then have "?n - 1 < k" using assms(1) by (simp add: mult_less_cancel_left_pos)
    moreover from hi k have "delta * k \<le> delta * ?n" by (simp add: algebra_simps)
    then have "k \<le> ?n" using assms(1) by (simp add: mult_le_cancel_left_pos)
    ultimately have "k = ?n" by simp
    with k show "start + ?n * delta = stop" by (simp add: algebra_simps)
  qed
  from a b show ?thesis unfolding l by simp
qed

lemma packets_cover:
  assumes "0 < delta" "start \<le> t" "t < stop"
  shows "\<exists>p \<in> set (packet_bounds start delta (packet_count start stop delta)).
           fst p \<le> t \<and> t < snd p"
proof -
  let ?n = "packet_count start stop delta"
  let ?q = "(t - start) div delta" and ?r = "(t - start) mod delta"
  define k where "k = nat ?q"
  have lt: "start < stop" using assms(2,3) by simp
  have q: "0 \<le> ?q" using assms(1,2) by (simp add: pos_imp_zdiv_nonneg_iff)
  then have k: "int k = ?q" by (simp add: k_def)
  have d: "t - start = ?q * delta + ?r" by simp
  have r: "0 \<le> ?r" "?r < delta" using assms(1) by simp_all
  from d r have lo: "start + int k * delta \<le> t" unfolding k by linarith
  have "(?q + 1) * delta = ?q * delta + delta" by (simp add: algebra_simps)
  with d r have hi: "t < start + (int k + 1) * delta" unfolding k by linarith
  from packet_count_bounds[OF assms(1) lt] have "stop \<le> start + int ?n * delta" by simp
  with lo assms(3) have "delta * int k < delta * int ?n" by (simp add: algebra_simps)
  then have "int k < int ?n" using assms(1) by (simp add: mult_less_cancel_left_pos)
  then have kn: "k < ?n" by simp
  then have "packet_bounds start delta ?n ! k \<in> set (packet_bounds start delta ?n)"
    by (simp add: length_packet_bounds)
  moreover have "packet_bounds start delta ?n ! k
                   = (start + int k * delta, start + (int k + 1) * delta)"
    using kn by (rule packet_bounds_nth)
  ultimately show ?thesis using lo hi by force
qed

lemma strftime_whole_second: "strftime (d - d mod 1000000) = strftime d"
proof -
  have "(d - d mod 1000000) div 1000000 = d div 1000000"
    by (simp add: minus_mod_eq_mult_div)
  then show ?thesis by (simp add: strftime_def)
qed

text \<open>
  Claim C1, as the code has it. For a window with \<open>start < stop\<close> and a positive
  packet size the loop ends. Its packets, each with the cursor before and after the
  step as its bounds, are \<open>(start + k * delta, start + (k + 1) * delta)\<close> for \<open>k\<close>
  below the quotient of the window by the packet size, rounded up. There is at least
  one packet, the first begins at \<open>start\<close>, each packet ends where the next one begins,
  every packet (the last one too) has the size \<open>delta\<close> and begins before \<open>stop\<close>,
  and every time from \<open>start\<close> up to \<open>stop\<close> lies in one of them. The last packet is not
  cut at \<open>stop\<close>: it ends at \<open>stop\<close> or later and before \<open>stop + delta\<close>, at \<open>stop\<close>
  exactly when the packet size divides the window. The query of a packet is sent with
  the two bounds as \<^verbatim>\<open>strftime\<close> prints them, that is, cut to the whole second, and
  the end time of a query is the start time of the query after it.
\<close>

theorem packets_consecutive_full_size:
  assumes "0 < delta" and "start < stop"
  shows "\<exists>w' ps. packet_loop c tag fn stop delta avg start w = Some w'
           \<and> queries w' = queries w @ map (packet_query tag) ps
           \<and> ps = packet_bounds start delta (packet_count start stop delta)
           \<and> ps \<noteq> [] \<and> fst (hd ps) = start \<and> stop \<le> snd (last ps)
           \<and> (\<forall>p \<in> set ps. snd p - fst p = delta \<and> fst p < stop)
           \<and> (\<forall>i. Suc i < length ps \<longrightarrow> snd (ps ! i) = fst (ps ! Suc i))
           \<and> snd (last ps) < stop + delta
           \<and> (snd (last ps) = stop \<longleftrightarrow> delta dvd stop - start)
           \<and> (\<forall>t. start \<le> t \<and> t < stop \<longrightarrow> (\<exists>p \<in> set ps. fst p \<le> t \<and> t < snd p))
           \<and> (\<forall>i. Suc i < length ps \<longrightarrow>
                 snd (snd (packet_query tag (ps ! i))) = fst (snd (packet_query tag (ps ! Suc i))))
           \<and> (\<forall>p. packet_query tag p
                    = packet_query tag (fst p - fst p mod 1000000, snd p - snd p mod 1000000))"
proof -
  let ?ps = "packet_bounds start delta (packet_count start stop delta)"
  note a = packet_loop_closed_form[OF assms(1), of c tag fn stop avg start w]
  note b = packet_bounds_properties[OF assms]
  note l = last_packet_properties[OF assms]
  have cov: "\<forall>t. start \<le> t \<and> t < stop \<longrightarrow> (\<exists>p \<in> set ?ps. fst p \<le> t \<and> t < snd p)"
    using packets_cover[OF assms(1)] by blast
  have q: "\<forall>i. Suc i < length ?ps \<longrightarrow>
             snd (snd (packet_query tag (?ps ! i))) = fst (snd (packet_query tag (?ps ! Suc i)))"
    using b by (simp add: packet_query_def)
  have s: "\<forall>p. packet_query tag p
                 = packet_query tag (fst p - fst p mod 1000000, snd p - snd p mod 1000000)"
    by (simp add: packet_query_def strftime_whole_second)
  from a b l cov q s show ?thesis by simp
qed

lemma example_times:
  "datetime 2019 4 7 12 0 0 0 = 63690235200000000"
  "datetime 2019 4 7 12 0 5 0 = 63690235205000000"
  "datetime 2019 4 7 12 0 6 0 = 63690235206000000"
  "datetime 2019 4 7 12 5 0 0 = 63690235500000000"
  "datetime 2019 4 7 12 10 0 0 = 63690235800000000"
  "timedelta 0 0 0 2 = 2000000"
  "timedelta 1 0 0 0 = 86400000000"
  "timedelta 0 0 5 0 = 300000000"
  by (simp_all add: datetime_eval)

lemma example_strftime:
  "strftime 63690235200000000 = ''07.04.2019  12:00:00''"
  "strftime 63690235202000000 = ''07.04.2019  12:00:02''"
  "strftime 63690235204000000 = ''07.04.2019  12:00:04''"
  "strftime 63690235205000000 = ''07.04.2019  12:00:05''"
  "strftime 63690235206000000 = ''07.04.2019  12:00:06''"
  "strftime 63690235500000000 = ''07.04.2019  12:05:00''"
  "strftime 63690235350000000 = ''07.04.2019  12:02:30''"
  "strftime 63690235201000000 = ''07.04.2019  12:00:01''"
  "strftime 63690235203000000 = ''07.04.2019  12:00:03''"
  by (simp_all add: strftime_eval)

lemma example_bounds:
  "packet_count 63690235200000000 63690235205000000 2000000 = 3"
  "packet_bounds 63690235200000000 2000000 3 =
     [(63690235200000000, 63690235202000000), (63690235202000000, 63690235204000000),
      (63690235204000000, 63690235206000000)]"
  by (simp_all add: packet_count_def packet_bounds_def numeral_3_eq_3)

text \<open>The window from 12:00:00 to 12:00:05 fetched in packets of two seconds: the third
  query runs to 12:00:06, which is after the end of the window, and 12:00:02 and
  12:00:04 are each the end time of one query and the start time of the next.\<close>

theorem packets_overrun_counterexample:
  "map_option queries
     (packet_loop no_answer ''T'' ''T.txt'' (datetime 2019 4 7 12 0 5 0) (timedelta 0 0 0 2)
        False (datetime 2019 4 7 12 0 0 0) world0)
     = Some [(''T'', ''07.04.2019  12:00:00'', ''07.04.2019  12:00:02''),
             (''T'', ''07.04.2019  12:00:02'', ''07.04.2019  12:00:04''),
             (''T'', ''07.04.2019  12:00:04'', ''07.04.2019  12:00:06'')]
   \<and> strftime (datetime 2019 4 7 12 0 5 0) = ''07.04.2019  12:00:05''
   \<and> datetime 2019 4 7 12 0 5 0 < datetime 2019 4 7 12 0 6 0"
  unfolding example_times
  by (simp add: packet_loop_closed_form example_bounds packet_query_def example_strftime
      world0_def)

theorem packets_consecutive_full_size_witness:
  "0 < timedelta 0 0 0 2 \<and> datetime 2019 4 7 12 0 0 0 < datetime 2019 4 7 12 0 5 0
   \<and> (\<exists>w' ps. packet_loop no_answer ''T'' ''T.txt'' (datetime 2019 4 7 12 0 5 0)
                  (timedelta 0 0 0 2) False (datetime 2019 4 7 12 0 0 0) world0 = Some w'
           \<and> queries w' = queries world0 @ map (packet_query ''T'') ps
           \<and> ps = packet_bounds (datetime 2019 4 7 12 0 0 0) (timedelta 0 0 0 2)
                    (packet_count (datetime 2019 4 7 12 0 0 0) (datetime 2019 4 7 12 0 5 0)
                       (timedelta 0 0 0 2))
           \<and> ps \<noteq> [] \<and> fst (hd ps) = datetime 2019 4 7 12 0 0 0
           \<and> datetime 2019 4 7 12 0 5 0 \<le> snd (last ps)
           \<and> (\<forall>p \<in> set ps. snd p - fst p = timedelta 0 0 0 2
                  \<and> fst p < datetime 2019 4 7 12 0 5 0)
           \<and> (\<forall>i. Suc i < length ps \<longrightarrow> snd (ps ! i) = fst (ps ! Suc i))
           \<and> snd (last ps) < datetime 2019 4 7 12 0 5 0 + timedelta 0 0 0 2
           \<and> (snd (last ps) = datetime 2019 4 7 12 0 5 0
                \<longleftrightarrow> timedelta 0 0 0 2 dvd datetime 2019 4 7 12 0 5 0 - datetime 2019 4 7 12 0 0 0)
           \<and> (\<forall>t. datetime 2019 4 7 12 0 0 0 \<le> t \<and> t < datetime 2019 4 7 12 0 5 0 \<longrightarrow>
                 (\<exists>p \<in> set ps. fst p \<le> t \<and> t < snd p))
           \<and> (\<forall>i. Suc i < length ps \<longrightarrow>
                 snd (snd (packet_query ''T'' (ps ! i)))
                   = fst (snd (packet_query ''T'' (ps ! Suc i))))
           \<and> (\<forall>p. packet_query ''T'' p
                    = packet_query ''T'' (fst p - fst p mod 1000000, snd p - snd p mod 1000000)))"
proof -
  have h1: "0 < timedelta 0 0 0 2" by (simp add: example_times)
  have h2: "datetime 2019 4 7 12 0 0 0 < datetime 2019 4 7 12 0 5 0"
    by (simp add: example_times)
  from h1 h2
    packets_consecutive_full_size[OF h1 h2, of no_answer "''T''" "''T.txt''" False world0]
  show ?thesis by (intro conjI)
qed

section \<open>Termination of the loop\<close>

lemma packet_count_ceiling:
  assumes "0 < delta" "start < stop"
  shows "int (packet_count start stop delta)
           = \<lceil>real_of_int (stop - start) / real_of_int delta\<rceil>"
proof -
  let ?n = "int (packet_count start stop delta)"
  from packet_count_bounds[OF assms]
  have lo: "(?n - 1) * delta < stop - start" and hi: "stop - start \<le> ?n * delta" by simp_all
  have d: "0 < real_of_int delta" using assms(1) by simp
  from lo have "real_of_int ((?n - 1) * delta) < real_of_int (stop - start)"
    by (simp only: of_int_less_iff)
  then have "(real_of_int ?n - 1) * real_of_int delta < real_of_int (stop - start)" by simp
  then have a: "real_of_int ?n - 1 < real_of_int (stop - start) / real_of_int delta"
    using d by (simp add: pos_less_divide_eq)
  from hi have "real_of_int (stop - start) \<le> real_of_int (?n * delta)"
    by (simp only: of_int_le_iff)
  then have "real_of_int (stop - start) \<le> real_of_int ?n * real_of_int delta" by simp
  then have b: "real_of_int (stop - start) / real_of_int delta \<le> real_of_int ?n"
    using d by (simp add: pos_divide_le_eq)
  from ceiling_unique[OF a b] show ?thesis by simp
qed

lemma length_queries_loop:
  assumes "0 < delta"
  shows "\<exists>w'. packet_loop c tag fn stop delta avg start w = Some w'
           \<and> length (queries w') = length (queries w) + packet_count start stop delta"
  by (simp add: packet_loop_closed_form[OF assms] length_packet_bounds)

text \<open>
  Claim C9. For a window with \<open>start < stop\<close> the loop ends exactly when the packet
  size is positive, and then it takes as many turns (one query each) as the window
  divided by the packet size, rounded up. With a packet size of 0 it never ends; 0 is
  what \<^verbatim>\<open>parse_time\<close> gives for a string such as \<^verbatim>\<open>abc\<close>, and the adjustment of the
  packet size to the window never makes a packet size larger.
\<close>

theorem packet_loop_terminates_iff:
  assumes "start < stop"
  shows "((\<exists>w'. packet_loop c tag fn stop delta avg start w = Some w') \<longleftrightarrow> 0 < delta)
         \<and> (0 < delta \<longrightarrow>
              (\<exists>w'. packet_loop c tag fn stop delta avg start w = Some w'
                 \<and> length (queries w') = length (queries w) + packet_count start stop delta)
              \<and> int (packet_count start stop delta)
                  = \<lceil>real_of_int (stop - start) / real_of_int delta\<rceil>)
         \<and> packet_loop c tag fn stop 0 avg start w = None
         \<and> parse_time ''abc'' = Inr (Some 0)
         \<and> resolve_packet_size start stop 0 = 0
         \<and> resolve_packet_size start stop delta \<le> delta"
proof -
  have pos: "\<exists>w'. packet_loop c tag fn stop delta avg start w = Some w'
               \<and> length (queries w') = length (queries w) + packet_count start stop delta"
    if "0 < delta"
    using that by (rule length_queries_loop)
  have neg: "packet_loop c tag fn stop delta avg start w = None" if "\<not> 0 < delta"
    using that assms by (simp add: packet_loop_diverges)
  have iff: "(\<exists>w'. packet_loop c tag fn stop delta avg start w = Some w') \<longleftrightarrow> 0 < delta"
    using pos neg by (cases "0 < delta") auto
  have zero: "packet_loop c tag fn stop 0 avg start w = None"
    using assms by (simp add: packet_loop_diverges)
  have p: "parse_time ''abc'' = Inr (Some 0)" by (simp add: parse_time_eval)
  have r: "resolve_packet_size start stop 0 = 0" "resolve_packet_size start stop delta \<le> delta"
    using assms by (simp_all add: resolve_packet_size_def)
  from iff pos zero p r packet_count_ceiling[OF _ assms] show ?thesis by blast
qed

theorem packet_loop_terminates_iff_witness:
  "datetime 2019 4 7 12 0 0 0 < datetime 2019 4 7 12 0 5 0
   \<and> 0 < timedelta 0 0 0 2
   \<and> (\<exists>w'. packet_loop no_answer ''T'' ''T.txt'' (datetime 2019 4 7 12 0 5 0)
               (timedelta 0 0 0 2) False (datetime 2019 4 7 12 0 0 0) world0 = Some w'
          \<and> length (queries w') = length (queries world0) + 3)
   \<and> \<lceil>real_of_int (datetime 2019 4 7 12 0 5 0 - datetime 2019 4 7 12 0 0 0)
        / real_of_int (timedelta 0 0 0 2)\<rceil> = 3
   \<and> packet_loop no_answer ''T'' ''T.txt'' (datetime 2019 4 7 12 0 5 0) 0 False
        (datetime 2019 4 7 12 0 0 0) world0 = None"
proof -
  have h: "datetime 2019 4 7 12 0 0 0 < datetime 2019 4 7 12 0 5 0"
    by (simp add: example_times)
  have d: "0 < timedelta 0 0 0 2" by (simp add: example_times)
  have n: "packet_count (datetime 2019 4 7 12 0 0 0) (datetime 2019 4 7 12 0 5 0)
             (timedelta 0 0 0 2) = 3"
    by (simp add: example_times example_bounds)
  from packet_loop_terminates_iff[OF h, of no_answer "''T''" "''T.txt''" "timedelta 0 0 0 2"
      False world0] h d
  show ?thesis unfolding n by simp
qed

section \<open>The packet size of a short window\<close>

lemma packet_count_one: "0 < delta \<Longrightarrow> packet_count start (start + delta) delta = 1"
proof -
  assume d: "0 < delta"
  have e: "start + delta - start + delta - 1 = (delta - 1) + delta" by simp
  have "(delta - 1 + delta) div delta = (delta - 1) div delta + 1"
    by (rule div_add_self2) (use d in simp)
  then have "(start + delta - start + delta - 1) div delta = (delta - 1) div delta + 1"
    by (simp only: e)
  moreover have "(delta - 1) div delta = 0" using d by (simp add: div_pos_pos_trivial)
  ultimately show ?thesis by (simp add: packet_count_def)
qed

lemma packet_bounds_one: "packet_bounds start delta (Suc 0) = [(start, start + delta)]"
  by (simp add: packet_bounds_def)

lemma world0_fields:
  "files world0 fn = None" "queries world0 = []" "tag_list world0 = None" "stdout world0 = []"
  by (simp_all add: world0_def)

text \<open>
  Claim C6, for a window that is not empty. When the window \<open>stop - start\<close> is
  positive and smaller than the packet size that was asked for, the packet size
  becomes \<open>stop - start\<close>, and the loop then sends one query, from \<open>start\<close> to
  \<open>stop\<close>.
\<close>

theorem short_window_single_packet:
  assumes "start < stop" and "stop - start < packet_size"
  shows "resolve_packet_size start stop packet_size = stop - start
         \<and> (\<exists>w'. packet_loop c tag fn stop (resolve_packet_size start stop packet_size) avg
                    start w = Some w'
                \<and> queries w' = queries w @ [packet_query tag (start, stop)])"
proof -
  have r: "resolve_packet_size start stop packet_size = stop - start"
    using assms(2) by (simp add: resolve_packet_size_def)
  have d: "0 < stop - start" using assms(1) by simp
  have "packet_count start stop (stop - start) = 1"
    using packet_count_one[OF d, of start] by simp
  then show ?thesis
    unfolding r by (simp add: packet_loop_closed_form[OF d] packet_bounds_one)
qed

text \<open>A window of five minutes with the packet size of one day: the packet size
  becomes five minutes and one query is sent, from 12:00:00 to 12:05:00.\<close>

theorem short_window_single_packet_witness:
  "datetime 2019 4 7 12 0 0 0 < datetime 2019 4 7 12 5 0 0
   \<and> datetime 2019 4 7 12 5 0 0 - datetime 2019 4 7 12 0 0 0 < timedelta 1 0 0 0
   \<and> resolve_packet_size (datetime 2019 4 7 12 0 0 0) (datetime 2019 4 7 12 5 0 0)
        (timedelta 1 0 0 0) = timedelta 0 0 5 0
   \<and> (\<exists>w'. packet_loop no_samples ''T'' ''T.txt'' (datetime 2019 4 7 12 5 0 0)
               (resolve_packet_size (datetime 2019 4 7 12 0 0 0) (datetime 2019 4 7 12 5 0 0)
                  (timedelta 1 0 0 0))
               False (datetime 2019 4 7 12 0 0 0) world0 = Some w'
          \<and> queries w' = [(''T'', ''07.04.2019  12:00:00'', ''07.04.2019  12:05:00'')])"
proof -
  have h1: "datetime 2019 4 7 12 0 0 0 < datetime 2019 4 7 12 5 0 0"
    by (simp add: example_times)
  have h2: "datetime 2019 4 7 12 5 0 0 - datetime 2019 4 7 12 0 0 0 < timedelta 1 0 0 0"
    by (simp add: example_times)
  have q: "packet_query ''T'' (datetime 2019 4 7 12 0 0 0, datetime 2019 4 7 12 5 0 0)
             = (''T'', ''07.04.2019  12:00:00'', ''07.04.2019  12:05:00'')"
    by (simp add: packet_query_def example_times example_strftime)
  have e: "datetime 2019 4 7 12 5 0 0 - datetime 2019 4 7 12 0 0 0 = timedelta 0 0 5 0"
    by (simp add: example_times)
  from short_window_single_packet[OF h1 h2, of no_samples "''T''" "''T.txt''" False world0]
  obtain w' where r: "resolve_packet_size (datetime 2019 4 7 12 0 0 0)
                        (datetime 2019 4 7 12 5 0 0) (timedelta 1 0 0 0)
                      = datetime 2019 4 7 12 5 0 0 - datetime 2019 4 7 12 0 0 0"
    and l: "packet_loop no_samples ''T'' ''T.txt'' (datetime 2019 4 7 12 5 0 0)
              (resolve_packet_size (datetime 2019 4 7 12 0 0 0) (datetime 2019 4 7 12 5 0 0)
                 (timedelta 1 0 0 0))
              False (datetime 2019 4 7 12 0 0 0) world0 = Some w'"
    and qs: "queries w' = queries world0
               @ [packet_query ''T'' (datetime 2019 4 7 12 0 0 0, datetime 2019 4 7 12 5 0 0)]"
    by blast
  from qs have "queries w' = [(''T'', ''07.04.2019  12:00:00'', ''07.04.2019  12:05:00'')]"
    unfolding q by (simp add: world0_fields)
  with l have "\<exists>w'. packet_loop no_samples ''T'' ''T.txt'' (datetime 2019 4 7 12 5 0 0)
               (resolve_packet_size (datetime 2019 4 7 12 0 0 0) (datetime 2019 4 7 12 5 0 0)
                  (timedelta 1 0 0 0))
               False (datetime 2019 4 7 12 0 0 0) world0 = Some w'
          \<and> queries w' = [(''T'', ''07.04.2019  12:00:00'', ''07.04.2019  12:05:00'')]"
    by blast
  moreover from r e have "resolve_packet_size (datetime 2019 4 7 12 0 0 0)
      (datetime 2019 4 7 12 5 0 0) (timedelta 1 0 0 0) = timedelta 0 0 5 0" by simp
  ultimately show ?thesis using h1 h2 by blast
qed

text \<open>The window from 12:00:00 to 12:00:00 is smaller than one day. The packet size
  becomes 0, the loop sends no query at all, and \<^verbatim>\<open>getTag\<close> ends with the exception of
  the size check.\<close>

theorem empty_window_no_packet_counterexample:
  "datetime 2019 4 7 12 0 0 0 - datetime 2019 4 7 12 0 0 0 < timedelta 1 0 0 0
   \<and> resolve_packet_size (datetime 2019 4 7 12 0 0 0) (datetime 2019 4 7 12 0 0 0)
        (timedelta 1 0 0 0) = 0
   \<and> map_option queries
        (packet_loop no_samples ''T'' ''T.txt'' (datetime 2019 4 7 12 0 0 0)
           (resolve_packet_size (datetime 2019 4 7 12 0 0 0) (datetime 2019 4 7 12 0 0 0)
              (timedelta 1 0 0 0))
           False (datetime 2019 4 7 12 0 0 0) world0) = Some []
   \<and> getTag (open_provider no_samples) ''T'' (datetime 2019 4 7 12 0 0 0)
        (datetime 2019 4 7 12 0 0 0) []
        (resolve_packet_size (datetime 2019 4 7 12 0 0 0) (datetime 2019 4 7 12 0 0 0)
           (timedelta 1 0 0 0))
        False ''piadmin'' ''ONO-IMS'' world0 = Some (world0, Inl FileNotFoundError)"
proof -
  have r: "resolve_packet_size (datetime 2019 4 7 12 0 0 0) (datetime 2019 4 7 12 0 0 0)
             (timedelta 1 0 0 0) = 0"
    by (simp add: resolve_packet_size_def example_times)
  have l: "packet_loop no_samples ''T'' fn (datetime 2019 4 7 12 0 0 0) 0 False
             (datetime 2019 4 7 12 0 0 0) world0 = Some world0" for fn
    by (subst packet_loop.simps) simp
  have w: "datetime 2019 4 7 12 0 0 0 - datetime 2019 4 7 12 0 0 0 < timedelta 1 0 0 0"
    by (simp add: example_times)
  show ?thesis
    unfolding r using w
    by (simp add: l getTag_def abodb_connect_def open_provider_def size_check_def
        world0_fields Let_def)
qed

section \<open>Averaging a packet\<close>

lemma td_half_midpoint: "\<bar>2 * (d + delta - td_half delta) - (d + (d + delta))\<bar> \<le> 1"
proof -
  define q where "q = delta div 2"
  have r: "delta = 2 * q \<or> delta = 2 * q + 1" unfolding q_def by presburger
  have h: "td_half delta = q \<or> (td_half delta = q + 1 \<and> delta = 2 * q + 1)"
    unfolding q_def td_half_def Let_def by presburger
  from h show ?thesis
  proof
    assume "td_half delta = q"
    with r show ?thesis by auto
  next
    assume "td_half delta = q + 1 \<and> delta = 2 * q + 1"
    then show ?thesis by auto
  qed
qed

lemma export_average_rows:
  assumes "\<not> BOF rs" "\<not> EOF rs" "GetRows rs \<noteq> []"
  shows "export_average rs fn action a_date fs =
           (f_write fn (fst (last (GetRows rs)), a_date,
                        sum_list (map (\<lambda>item. snd (snd item)) (GetRows rs))
                          / real (length (GetRows rs)))
              (py_open fn action fs), None)"
  using assms by (simp add: export_average_def average_rows_eq Let_def)

text \<open>
  Claim C3. In the averaging mode, a packet whose query comes back with rows adds one
  line to the output file: the tag name of the last row, the time stamp of the cursor
  after the step minus half the packet size, and the sum of the values divided by
  their number. That time stamp is the middle of the packet, to the microsecond that
  the halving rounds. \<^verbatim>\<open>export_average\<close> itself writes that one line and raises
  nothing.
\<close>

theorem average_packet_one_record:
  assumes "adodb_query c tag (strftime d) (strftime (d + delta)) = Inr rs"
    and "\<not> BOF rs" and "\<not> EOF rs" and "GetRows rs \<noteq> []"
  shows "packet_step c tag fn delta True d w =
           (d + delta,
            w\<lparr>queries := queries w @ [(tag, strftime d, strftime (d + delta))],
              files := (files w)(fn \<mapsto> content_of (files w) fn @
                 [(fst (last (GetRows rs)), strftime (d + delta - td_half delta),
                   sum_list (map (\<lambda>item. snd (snd item)) (GetRows rs))
                     / real (length (GetRows rs)))])\<rparr>)
         \<and> \<bar>2 * (d + delta - td_half delta) - (d + (d + delta))\<bar> \<le> 1
         \<and> export_average rs fn action a_date fs =
             (f_write fn (fst (last (GetRows rs)), a_date,
                          sum_list (map (\<lambda>item. snd (snd item)) (GetRows rs))
                            / real (length (GetRows rs)))
                (py_open fn action fs), None)"
  using assms td_half_midpoint[of d delta] export_average_rows[OF assms(2-4)]
  by (simp add: packet_step_eq packet_lines_def packet_query_def)

text \<open>The rows with the values 1, 2 and 3 in the packet from 12:00:00 to 12:05:00: one
  line with the value 2 at 12:02:30.\<close>

theorem average_packet_one_record_witness:
  "adodb_query three_samples ''T'' (strftime (datetime 2019 4 7 12 0 0 0))
       (strftime (datetime 2019 4 7 12 0 0 0 + timedelta 0 0 5 0))
     = Inr \<lparr>BOF = False, EOF = False,
            GetRows = [(''T'', ''07.04.2019 12:00:01.000'', 1),
                       (''T'', ''07.04.2019 12:00:02.000'', 2),
                       (''T'', ''07.04.2019 12:00:03.000'', 3)]\<rparr>
   \<and> fst (packet_step three_samples ''T'' ''T.txt'' (timedelta 0 0 5 0) True
             (datetime 2019 4 7 12 0 0 0) world0) = datetime 2019 4 7 12 5 0 0
   \<and> files (snd (packet_step three_samples ''T'' ''T.txt'' (timedelta 0 0 5 0) True
                    (datetime 2019 4 7 12 0 0 0) world0)) ''T.txt''
       = Some [(''T'', ''07.04.2019  12:02:30'', 2)]"
proof -
  let ?rs = "\<lparr>BOF = False, EOF = False,
               GetRows = [(''T'', ''07.04.2019 12:00:01.000'', 1::real),
                          (''T'', ''07.04.2019 12:00:02.000'', 2),
                          (''T'', ''07.04.2019 12:00:03.000'', 3)]\<rparr>"
  have q: "adodb_query three_samples ''T'' (strftime (datetime 2019 4 7 12 0 0 0))
             (strftime (datetime 2019 4 7 12 0 0 0 + timedelta 0 0 5 0)) = Inr ?rs"
    by (simp add: adodb_query_def three_samples_def)
  have g: "\<not> BOF ?rs" "\<not> EOF ?rs" "GetRows ?rs \<noteq> []" by simp_all
  have h: "td_half 300000000 = 150000000" by (simp add: td_half_def)
  from average_packet_one_record[OF q g, of "''T.txt''" world0]
  have "packet_step three_samples ''T'' ''T.txt'' (timedelta 0 0 5 0) True
          (datetime 2019 4 7 12 0 0 0) world0 =
        (datetime 2019 4 7 12 5 0 0,
         world0\<lparr>queries := queries world0 @
                   [(''T'', strftime (datetime 2019 4 7 12 0 0 0),
                     strftime (datetime 2019 4 7 12 0 0 0 + timedelta 0 0 5 0))],
                files := (files world0)(''T.txt'' \<mapsto>
                   [(''T'', ''07.04.2019  12:02:30'', 2)])\<rparr>)"
    by (simp add: example_times example_strftime h content_of_def world0_fields)
  with q show ?thesis by simp
qed

text \<open>
  Claim C4, as the code has it. \<^verbatim>\<open>export_average\<close> divides only behind the test of
  \<^verbatim>\<open>BOF\<close> and \<^verbatim>\<open>EOF\<close>. For a record set with one of the flags set, as an empty one
  has them, it opens the file, writes nothing and raises nothing. The division by zero
  is raised exactly for a record set with both flags clear and no row, and nothing else
  is ever raised; in \<^verbatim>\<open>getTag\<close> a packet without rows adds no line and lets the loop go
  on.
\<close>

theorem export_average_guard:
  "(BOF rs \<or> EOF rs \<longrightarrow> export_average rs fn action a_date fs = (py_open fn action fs, None))
   \<and> (snd (export_average rs fn action a_date fs) = Some ZeroDivisionError
        \<longleftrightarrow> \<not> BOF rs \<and> \<not> EOF rs \<and> GetRows rs = [])
   \<and> (snd (export_average rs fn action a_date fs) = None
        \<or> snd (export_average rs fn action a_date fs) = Some ZeroDivisionError)
   \<and> (adodb_query c tag (strftime d) (strftime (d + delta)) = Inr rs
        \<and> (BOF rs \<or> EOF rs \<or> GetRows rs = []) \<longrightarrow>
      packet_step c tag fn delta True d w =
        (d + delta,
         w\<lparr>queries := queries w @ [(tag, strftime d, strftime (d + delta))],
           files := (files w)(fn \<mapsto> content_of (files w) fn)\<rparr>))"
proof -
  have a: "export_average rs fn action a_date fs = (py_open fn action fs, None)"
    if "BOF rs \<or> EOF rs"
    using that by (auto simp: export_average_def)
  have b: "snd (export_average rs fn action a_date fs) = Some ZeroDivisionError
             \<longleftrightarrow> \<not> BOF rs \<and> \<not> EOF rs \<and> GetRows rs = []"
    by (auto simp: export_average_def average_rows_eq Let_def)
  have c: "snd (export_average rs fn action a_date fs) = None
             \<or> snd (export_average rs fn action a_date fs) = Some ZeroDivisionError"
    by (auto simp: export_average_def average_rows_eq Let_def)
  have d: "packet_step c tag fn delta True d w =
        (d + delta,
         w\<lparr>queries := queries w @ [(tag, strftime d, strftime (d + delta))],
           files := (files w)(fn \<mapsto> content_of (files w) fn)\<rparr>)"
    if "adodb_query c tag (strftime d) (strftime (d + delta)) = Inr rs"
      and "BOF rs \<or> EOF rs \<or> GetRows rs = []"
    using that by (auto simp: packet_step_eq packet_lines_def packet_query_def)
  from a b c d show ?thesis by blast
qed

theorem export_average_guard_witness:
  "BOF \<lparr>BOF = True, EOF = True, GetRows = []\<rparr>
   \<and> export_average \<lparr>BOF = True, EOF = True, GetRows = []\<rparr> ''T.txt'' ''w''
        ''07.04.2019  12:02:30'' (files world0)
       = (py_open ''T.txt'' ''w'' (files world0), None)
   \<and> adodb_query no_samples ''T'' (strftime (datetime 2019 4 7 12 0 0 0))
         (strftime (datetime 2019 4 7 12 0 0 0 + timedelta 0 0 5 0))
       = Inr \<lparr>BOF = True, EOF = True, GetRows = []\<rparr>
   \<and> files (snd (packet_step no_samples ''T'' ''T.txt'' (timedelta 0 0 5 0) True
                    (datetime 2019 4 7 12 0 0 0) world0)) ''T.txt'' = Some []"
proof -
  let ?rs = "\<lparr>BOF = True, EOF = True, GetRows = ([] :: row list)\<rparr>"
  have q: "adodb_query no_samples ''T'' (strftime (datetime 2019 4 7 12 0 0 0))
             (strftime (datetime 2019 4 7 12 0 0 0 + timedelta 0 0 5 0)) = Inr ?rs"
    by (simp add: adodb_query_def no_samples_def)
  from export_average_guard[of ?rs "''T.txt''" "''w''" "''07.04.2019  12:02:30''"
      "files world0" no_samples "''T''" "datetime 2019 4 7 12 0 0 0" "timedelta 0 0 5 0" world0] q
  show ?thesis by (simp add: content_of_def world0_fields)
qed

text \<open>An empty record set in the averaging mode: the file is created, no line is
  written and no exception is raised.\<close>

theorem export_average_empty_counterexample:
  "snd (export_average \<lparr>BOF = True, EOF = True, GetRows = []\<rparr> ''T.txt'' ''w''
          ''07.04.2019  12:02:30'' (files world0)) = None
   \<and> fst (export_average \<lparr>BOF = True, EOF = True, GetRows = []\<rparr> ''T.txt'' ''w''
            ''07.04.2019  12:02:30'' (files world0)) ''T.txt'' = Some []"
  by (simp add: export_average_def py_open_def)

section \<open>Errors of a packet\<close>

lemma queries_independent:
  "map_option queries (packet_loop c tag fn stop delta avg start w)
     = map_option queries (packet_loop c' tag fn stop delta avg start w)"
proof (cases "0 < delta")
  case True
  then show ?thesis by (simp add: packet_loop_closed_form)
next
  case False
  show ?thesis
  proof (cases "start < stop")
    case True
    with False show ?thesis by (simp add: packet_loop_diverges)
  next
    case False
    then have "packet_loop c tag fn stop delta avg start w = Some w"
      "packet_loop c' tag fn stop delta avg start w = Some w"
      by (subst packet_loop.simps, simp)+
    then show ?thesis by simp
  qed
qed

text \<open>
  Claim C5. When the query of a packet raises, the step leaves the files as they are,
  and the cursor has moved on by the packet size all the same. Whatever the query
  answers and whatever the export does, a step moves the cursor by the packet size
  and sends one query, no second one. So the queries of a run are the same for any
  two historians, and with a positive packet size the loop runs through all the
  packets of the window, whichever of them fail.
\<close>

theorem packet_errors_swallowed:
  "(adodb_query c tag (strftime d) (strftime (d + delta)) = Inl err \<longrightarrow>
      packet_step c tag fn delta avg d w
        = (d + delta, w\<lparr>queries := queries w @ [(tag, strftime d, strftime (d + delta))]\<rparr>))
   \<and> fst (packet_step c tag fn delta avg d w) = d + delta
   \<and> queries (snd (packet_step c tag fn delta avg d w))
       = queries w @ [(tag, strftime d, strftime (d + delta))]
   \<and> map_option queries (packet_loop c tag fn stop delta avg start w)
       = map_option queries (packet_loop c' tag fn stop delta avg start w)
   \<and> (0 < delta \<longrightarrow>
        (\<exists>w'. packet_loop c tag fn stop delta avg start w = Some w'
           \<and> queries w' = queries w @ map (packet_query tag)
                (packet_bounds start delta (packet_count start stop delta))))"
proof -
  have a: "packet_step c tag fn delta avg d w
             = (d + delta, w\<lparr>queries := queries w @ [(tag, strftime d, strftime (d + delta))]\<rparr>)"
    if "adodb_query c tag (strftime d) (strftime (d + delta)) = Inl err"
    using that by (simp add: packet_step_def Let_def)
  have b: "queries (snd (packet_step c tag fn delta avg d w))
             = queries w @ [(tag, strftime d, strftime (d + delta))]"
    by (simp add: packet_step_eq packet_query_def)
  have e: "\<exists>w'. packet_loop c tag fn stop delta avg start w = Some w'
           \<and> queries w' = queries w @ map (packet_query tag)
                (packet_bounds start delta (packet_count start stop delta))"
    if "0 < delta"
    using that by (simp add: packet_loop_closed_form)
  from a b e fst_packet_step[of c tag fn delta avg d w]
    queries_independent[of c tag fn stop delta avg start w c']
  show ?thesis by blast
qed

text \<open>On a connection where every statement raises, the step from 12:00:00 by two
  seconds sends its query and touches no file, and the run over the window to 12:00:05
  sends the same three queries as a run on a connection that answers with rows.\<close>

theorem packet_errors_swallowed_witness:
  "adodb_query no_answer ''T'' (strftime (datetime 2019 4 7 12 0 0 0))
       (strftime (datetime 2019 4 7 12 0 0 0 + timedelta 0 0 0 2)) = Inl ComError
   \<and> packet_step no_answer ''T'' ''T.txt'' (timedelta 0 0 0 2) False
        (datetime 2019 4 7 12 0 0 0) world0
       = (datetime 2019 4 7 12 0 0 0 + timedelta 0 0 0 2,
          world0\<lparr>queries := [(''T'', ''07.04.2019  12:00:00'', ''07.04.2019  12:00:02'')]\<rparr>)
   \<and> 0 < timedelta 0 0 0 2
   \<and> map_option queries
        (packet_loop three_samples ''T'' ''T.txt'' (datetime 2019 4 7 12 0 5 0)
           (timedelta 0 0 0 2) False (datetime 2019 4 7 12 0 0 0) world0)
       = Some [(''T'', ''07.04.2019  12:00:00'', ''07.04.2019  12:00:02''),
               (''T'', ''07.04.2019  12:00:02'', ''07.04.2019  12:00:04''),
               (''T'', ''07.04.2019  12:00:04'', ''07.04.2019  12:00:06'')]"
proof -
  have q: "adodb_query no_answer ''T'' (strftime (datetime 2019 4 7 12 0 0 0))
             (strftime (datetime 2019 4 7 12 0 0 0 + timedelta 0 0 0 2)) = Inl ComError"
    by (simp add: adodb_query_def no_answer_def)
  have p: "0 < timedelta 0 0 0 2" by (simp add: example_times)
  have l: "map_option queries
        (packet_loop no_answer ''T'' ''T.txt'' (datetime 2019 4 7 12 0 5 0)
           (timedelta 0 0 0 2) False (datetime 2019 4 7 12 0 0 0) world0)
       = Some [(''T'', ''07.04.2019  12:00:00'', ''07.04.2019  12:00:02''),
               (''T'', ''07.04.2019  12:00:02'', ''07.04.2019  12:00:04''),
               (''T'', ''07.04.2019  12:00:04'', ''07.04.2019  12:00:06'')]"
    unfolding example_times
    by (simp add: packet_loop_closed_form example_bounds packet_query_def example_strftime
        world0_fields)
  have s: "strftime (datetime 2019 4 7 12 0 0 0) = ''07.04.2019  12:00:00''"
    "strftime (datetime 2019 4 7 12 0 0 0 + timedelta 0 0 0 2) = ''07.04.2019  12:00:02''"
    by (simp_all add: example_times example_strftime)
  from packet_errors_swallowed[of no_answer "''T''" "datetime 2019 4 7 12 0 0 0"
      "timedelta 0 0 0 2" ComError "''T.txt''" False world0 "datetime 2019 4 7 12 0 5 0"
      "datetime 2019 4 7 12 0 0 0" three_samples] q p l
  show ?thesis unfolding s by (simp add: world0_fields)
qed

section \<open>The size check after the loop\<close>



lemma getTag_after_loop:
  assumes "prov usr srv = Inr c"
    and "packet_loop c tag (output_name ident tag) stop delta avg start w = Some w1"
  shows "getTag prov tag start stop ident delta avg usr srv w
           = Some (size_check (output_name ident tag) w1)"
  using assms by (simp add: getTag_def abodb_connect_def Let_def)



lemma packet_loop_empty_window:
  "stop \<le> start \<Longrightarrow> packet_loop c tag fn stop delta avg start w = Some w"
  by (subst packet_loop.simps) simp




lemma world1_fields:
  "files world1 = [''T.txt'' \<mapsto> [(''T'', ''06.04.2019 10:00:00.000'', 1)]]"
  "queries world1 = []" "tag_list world1 = None" "stdout world1 = []"
  by (simp_all add: world1_def)

lemma output_name_T: "output_name [] ''T'' = ''T.txt''"
  by (simp add: output_name_def)




section \<open>A run that never opens the output file\<close>

lemma packet_files_None:
  "packet_files c tag fn delta avg fs p fn = None \<longleftrightarrow> fs fn = None \<and> \<not> answered c tag p"
  by (simp add: packet_files_def answered_def split: sum.splits)

lemma files_None_iff:
  "foldl (packet_files c tag fn delta avg) fs ps fn = None
     \<longleftrightarrow> fs fn = None \<and> (\<forall>p \<in> set ps. \<not> answered c tag p)"
proof (induction ps arbitrary: fs)
  case Nil
  then show ?case by simp
next
  case (Cons p ps)
  have "foldl (packet_files c tag fn delta avg) fs (p # ps) fn
          = foldl (packet_files c tag fn delta avg) (packet_files c tag fn delta avg fs p) ps fn"
    by simp
  then show ?case by (auto simp only: Cons.IH packet_files_None list.set insert_iff)
qed

lemma size_check_cases:
  "size_check fn w = (w, Inl FileNotFoundError) \<and> files w fn = None
   \<or> (\<exists>isEmpty w'. size_check fn w = (w', Inr isEmpty) \<and> files w fn \<noteq> None)"
  by (auto simp: size_check_def Let_def split: option.splits)

lemma getTag_empty_window:
  assumes "prov usr srv = Inr c" and "files w (output_name ident tag) = None"
    and "stop \<le> start"
  shows "getTag prov tag start stop ident delta avg usr srv w
           = Some (w, Inl FileNotFoundError)"
  using getTag_after_loop[of prov usr srv c tag ident stop delta avg start w w]
    packet_loop_empty_window[OF assms(3)] assms(1,2)
  by (simp add: size_check_def)

lemma getTag_flag_cases:
  assumes "prov usr srv = Inr c" and "files w (output_name ident tag) = None"
    and "0 < delta"
  shows "\<exists>w' r. getTag prov tag start stop ident delta avg usr srv w = Some (w', r)
           \<and> (r = Inl FileNotFoundError \<longleftrightarrow>
                 (\<forall>p \<in> set (packet_bounds start delta (packet_count start stop delta)).
                    \<not> answered c tag p))
           \<and> ((\<exists>isEmpty. r = Inr isEmpty) \<longleftrightarrow>
                 (\<exists>p \<in> set (packet_bounds start delta (packet_count start stop delta)).
                    answered c tag p))"
proof -
  let ?fn = "output_name ident tag"
  let ?ps = "packet_bounds start delta (packet_count start stop delta)"
  let ?w1 = "w\<lparr>queries := queries w @ map (packet_query tag) ?ps,
                files := foldl (packet_files c tag ?fn delta avg) (files w) ?ps\<rparr>"
  have l: "packet_loop c tag ?fn stop delta avg start w = Some ?w1"
    by (rule packet_loop_closed_form[OF assms(3)])
  have g: "getTag prov tag start stop ident delta avg usr srv w = Some (size_check ?fn ?w1)"
    using getTag_after_loop[of prov usr srv c tag ident stop delta avg start w ?w1]
      assms(1) l by simp
  have n: "files ?w1 ?fn = None \<longleftrightarrow> (\<forall>p \<in> set ?ps. \<not> answered c tag p)"
    using files_None_iff[of c tag ?fn delta avg "files w" ?ps] assms(2) by simp
  from size_check_cases[of ?fn ?w1] show ?thesis
  proof
    assume "size_check ?fn ?w1 = (?w1, Inl FileNotFoundError) \<and> files ?w1 ?fn = None"
    with g n show ?thesis by auto
  next
    assume "\<exists>isEmpty w'. size_check ?fn ?w1 = (w', Inr isEmpty) \<and> files ?w1 ?fn \<noteq> None"
    then obtain isEmpty w' where "size_check ?fn ?w1 = (w', Inr isEmpty)"
      "files ?w1 ?fn \<noteq> None" by blast
    with g n show ?thesis by auto
  qed
qed

lemma getTag_missing_file:
  assumes "prov usr srv = Inr c" and "files w (output_name ident tag) = None"
    and "stop \<le> start
         \<or> 0 < delta
           \<and> (\<forall>p \<in> set (packet_bounds start delta (packet_count start stop delta)).
                 \<not> answered c tag p)"
  shows "\<exists>w'. getTag prov tag start stop ident delta avg usr srv w
                 = Some (w', Inl FileNotFoundError)
               \<and> stdout w' = stdout w \<and> tag_list w' = tag_list w"
  using assms(3)
proof
  assume "stop \<le> start"
  with getTag_empty_window[of prov usr srv c w ident tag stop start delta avg] assms(1,2)
  show ?thesis by simp
next
  assume h: "0 < delta
             \<and> (\<forall>p \<in> set (packet_bounds start delta (packet_count start stop delta)).
                   \<not> answered c tag p)"
  let ?fn = "output_name ident tag"
  let ?ps = "packet_bounds start delta (packet_count start stop delta)"
  let ?w1 = "w\<lparr>queries := queries w @ map (packet_query tag) ?ps,
                files := foldl (packet_files c tag ?fn delta avg) (files w) ?ps\<rparr>"
  from h have pos: "0 < delta" and na: "\<forall>p \<in> set ?ps. \<not> answered c tag p" by simp_all
  have l: "packet_loop c tag ?fn stop delta avg start w = Some ?w1"
    by (rule packet_loop_closed_form[OF pos])
  have g: "getTag prov tag start stop ident delta avg usr srv w = Some (size_check ?fn ?w1)"
    using getTag_after_loop[of prov usr srv c tag ident stop delta avg start w ?w1]
      assms(1) l by simp
  have "files ?w1 ?fn = None"
    using files_None_iff[of c tag ?fn delta avg "files w" ?ps] assms(2) na by simp
  then have "size_check ?fn ?w1 = (?w1, Inl FileNotFoundError)"
    by (simp add: size_check_def)
  with g show ?thesis by simp
qed

lemma extract_tags_append:
  "extract_tags prov (xs @ ys) start stop delta avg usr srv w
     = (case extract_tags prov xs start stop delta avg usr srv w of
          None \<Rightarrow> None
        | Some (w', None) \<Rightarrow> extract_tags prov ys start stop delta avg usr srv w'
        | Some (w', Some err) \<Rightarrow> Some (w', Some err))"
proof (induction xs arbitrary: w)
  case Nil
  then show ?case by simp
next
  case (Cons x xs)
  show ?case
  proof (cases "getTag prov x start stop [] delta avg usr srv w")
    case None
    then show ?thesis by simp
  next
    case (Some res)
    obtain w' r where res: "res = (w', r)" by (cases res)
    show ?thesis
    proof (cases r)
      case (Inl err)
      with Some res show ?thesis by simp
    next
      case (Inr isEmpty)
      with Some res show ?thesis by (simp add: Cons.IH)
    qed
  qed
qed

lemma extract_tags_raise:
  assumes "extract_tags prov before start stop delta avg usr srv w0 = Some (w, None)"
    and "getTag prov tag start stop [] delta avg usr srv w = Some (w', Inl err)"
  shows "extract_tags prov (before @ tag # after) start stop delta avg usr srv w0
           = Some (w', Some err)"
  using assms by (simp add: extract_tags_append)

lemma main_missing_file:
  assumes "resolve_window (subparser a) = Inr (start, stop)" and "start \<le> stop"
    and "psize a = Some packet_size"
    and "get_tags w = Inr (tag # tags)"
    and "prov (user a) (server a) = Inr c" and "files w (output_name [] tag) = None"
    and "stop = start
         \<or> 0 < packet_size
           \<and> (\<forall>p \<in> set (packet_bounds start (resolve_packet_size start stop packet_size)
                            (packet_count start stop
                               (resolve_packet_size start stop packet_size))).
                 \<not> answered c tag p)"
  shows "\<exists>w'. main prov a w = Some (w', Raised FileNotFoundError)"
proof -
  let ?d = "resolve_packet_size start stop packet_size"
  define w1 where
    "w1 = (if stop - start < packet_size \<and> verbose a
           then w\<lparr>stdout := stdout w @
                  [[Str ''Packet_size being reduced bigger than requested time window''],
                   [Str ''Packet size being reduced accordingly'']]\<rparr>
           else w)"
  have f: "files w1 = files w" "tag_list w1 = tag_list w" by (simp_all add: w1_def)
  have t: "get_tags w1 = Inr (tag # tags)" using assms(4) f(2) by (simp add: get_tags_def)
  have c: "stop \<le> start
           \<or> 0 < ?d \<and> (\<forall>p \<in> set (packet_bounds start ?d (packet_count start stop ?d)).
                          \<not> answered c tag p)"
  proof (cases "stop = start")
    case True
    then show ?thesis by simp
  next
    case False
    with assms(2) have "0 < stop - start" by simp
    moreover from False assms(7) have "0 < packet_size"
      and "\<forall>p \<in> set (packet_bounds start ?d (packet_count start stop ?d)).
             \<not> answered c tag p"
      by simp_all
    ultimately show ?thesis by (simp add: resolve_packet_size_def)
  qed
  from getTag_missing_file[of prov "user a" "server a" c w1 "[]" tag stop start ?d "pave a"]
    assms(5,6) f c
  obtain w' where
    g: "getTag prov tag start stop [] ?d (pave a) (user a) (server a) w1
          = Some (w', Inl FileNotFoundError)"
    by auto
  have "extract_data prov start stop ?d (pave a) (user a) (server a) w1
          = Some (w', Some FileNotFoundError)"
    by (simp add: extract_data_def t g)
  then have "main prov a w = Some (w', Raised FileNotFoundError)"
    using assms(1,2,3) by (auto simp: main_def w1_def)
  then show ?thesis by blast
qed

text \<open>
  Claim C10, for a call before which the output file of the tag is not there. When
  the window is empty (\<open>stop \<le> start\<close>, which the main program lets through for a
  start equal to the end) the loop does nothing and \<^verbatim>\<open>getTag\<close> ends with the exception
  of \<^verbatim>\<open>os.stat\<close> for the missing file. With a positive packet size \<^verbatim>\<open>getTag\<close> ends
  with that exception exactly when the query of every packet raises, and it returns a
  flag exactly when the query of some packet is answered, so that the export of that
  packet has opened the file. Nothing catches the exception: in both cases the loop of
  \<^verbatim>\<open>extract_data\<close> over the tags ends with it when it comes to such a tag, and the main
  program ends with it when the tag is the first one of the tag list.
\<close>

theorem missing_file_raises:
  assumes "prov usr srv = Inr c" and "files w (output_name ident tag) = None"
  shows "(stop \<le> start \<longrightarrow>
            getTag prov tag start stop ident delta avg usr srv w
              = Some (w, Inl FileNotFoundError))
         \<and> (0 < delta \<longrightarrow>
             (\<exists>w' r. getTag prov tag start stop ident delta avg usr srv w = Some (w', r)
                \<and> (r = Inl FileNotFoundError \<longleftrightarrow>
                     (\<forall>p \<in> set (packet_bounds start delta (packet_count start stop delta)).
                        \<not> answered c tag p))
                \<and> ((\<exists>isEmpty. r = Inr isEmpty) \<longleftrightarrow>
                     (\<exists>p \<in> set (packet_bounds start delta (packet_count start stop delta)).
                        answered c tag p))))
         \<and> (ident = []
              \<and> extract_tags prov before start stop delta avg usr srv w0 = Some (w, None)
              \<and> (stop \<le> start
                   \<or> 0 < delta
                     \<and> (\<forall>p \<in> set (packet_bounds start delta (packet_count start stop delta)).
                           \<not> answered c tag p)) \<longrightarrow>
             (\<exists>w'. extract_tags prov (before @ tag # after) start stop delta avg usr srv w0
                      = Some (w', Some FileNotFoundError)))
         \<and> (resolve_window (subparser a) = Inr (start, stop) \<and> start \<le> stop
              \<and> psize a = Some packet_size \<and> user a = usr \<and> server a = srv \<and> ident = []
              \<and> get_tags w = Inr (tag # tags)
              \<and> (stop = start
                   \<or> 0 < packet_size
                     \<and> (\<forall>p \<in> set (packet_bounds start
                                      (resolve_packet_size start stop packet_size)
                                      (packet_count start stop
                                         (resolve_packet_size start stop packet_size))).
                           \<not> answered c tag p)) \<longrightarrow>
             (\<exists>w'. main prov a w = Some (w', Raised FileNotFoundError)))"
proof -
  let ?ps = "packet_bounds start delta (packet_count start stop delta)"
  have e: "getTag prov tag start stop ident delta avg usr srv w
             = Some (w, Inl FileNotFoundError)" if "stop \<le> start"
    using assms that by (rule getTag_empty_window)
  have p: "\<exists>w' r. getTag prov tag start stop ident delta avg usr srv w = Some (w', r)
                \<and> (r = Inl FileNotFoundError \<longleftrightarrow> (\<forall>p \<in> set ?ps. \<not> answered c tag p))
                \<and> ((\<exists>isEmpty. r = Inr isEmpty) \<longleftrightarrow> (\<exists>p \<in> set ?ps. answered c tag p))"
    if "0 < delta"
    using getTag_flag_cases[of prov usr srv c w ident tag delta start stop avg] assms that
    by simp
  have x: "\<exists>w'. extract_tags prov (before @ tag # after) start stop delta avg usr srv w0
                  = Some (w', Some FileNotFoundError)"
    if i: "ident = []"
      and b: "extract_tags prov before start stop delta avg usr srv w0 = Some (w, None)"
      and h: "stop \<le> start \<or> 0 < delta \<and> (\<forall>p \<in> set ?ps. \<not> answered c tag p)"
  proof -
    from getTag_missing_file[of prov usr srv c w ident tag stop start delta avg] assms h i
    obtain w' where "getTag prov tag start stop [] delta avg usr srv w
                       = Some (w', Inl FileNotFoundError)"
      by auto
    with b have "extract_tags prov (before @ tag # after) start stop delta avg usr srv w0
                   = Some (w', Some FileNotFoundError)"
      by (rule extract_tags_raise)
    then show ?thesis by blast
  qed
  have m: "\<exists>w'. main prov a w = Some (w', Raised FileNotFoundError)"
    if "resolve_window (subparser a) = Inr (start, stop) \<and> start \<le> stop
          \<and> psize a = Some packet_size \<and> user a = usr \<and> server a = srv \<and> ident = []
          \<and> get_tags w = Inr (tag # tags)
          \<and> (stop = start
               \<or> 0 < packet_size
                 \<and> (\<forall>p \<in> set (packet_bounds start
                                  (resolve_packet_size start stop packet_size)
                                  (packet_count start stop
                                     (resolve_packet_size start stop packet_size))).
                       \<not> answered c tag p))"
    using main_missing_file[of a start stop packet_size w tag tags prov c] that assms by auto
  from e p x m show ?thesis by blast
qed

text \<open>With no output file and a connection on which every statement raises: the empty
  window from 12:00:00 to 12:00:00 and the window to 12:00:05 in packets of two
  seconds both end in the exception, in \<^verbatim>\<open>getTag\<close>, in the loop over the tags
  \<^verbatim>\<open>T\<close> and \<^verbatim>\<open>U\<close>, and in the main program with the tag \<^verbatim>\<open>T\<close> in the tag list.\<close>

theorem missing_file_raises_witness:
  "open_provider no_answer ''piadmin'' ''ONO-IMS'' = Inr no_answer
   \<and> files (world0\<lparr>tag_list := Some [''T'']\<rparr>) (output_name [] ''T'') = None
   \<and> datetime 2019 4 7 12 0 0 0 \<le> datetime 2019 4 7 12 0 0 0
   \<and> getTag (open_provider no_answer) ''T'' (datetime 2019 4 7 12 0 0 0)
        (datetime 2019 4 7 12 0 0 0) [] 0 False ''piadmin'' ''ONO-IMS''
        (world0\<lparr>tag_list := Some [''T'']\<rparr>)
       = Some (world0\<lparr>tag_list := Some [''T'']\<rparr>, Inl FileNotFoundError)
   \<and> 0 < timedelta 0 0 0 2
   \<and> list_all (\<lambda>p. \<not> answered no_answer ''T'' p)
        (packet_bounds (datetime 2019 4 7 12 0 0 0) (timedelta 0 0 0 2)
           (packet_count (datetime 2019 4 7 12 0 0 0) (datetime 2019 4 7 12 0 5 0)
              (timedelta 0 0 0 2)))
   \<and> (\<exists>w'. getTag (open_provider no_answer) ''T'' (datetime 2019 4 7 12 0 0 0)
               (datetime 2019 4 7 12 0 5 0) [] (timedelta 0 0 0 2) False
               ''piadmin'' ''ONO-IMS'' (world0\<lparr>tag_list := Some [''T'']\<rparr>)
              = Some (w', Inl FileNotFoundError))
   \<and> extract_tags (open_provider no_answer) [] (datetime 2019 4 7 12 0 0 0)
        (datetime 2019 4 7 12 0 5 0) (timedelta 0 0 0 2) False ''piadmin'' ''ONO-IMS''
        (world0\<lparr>tag_list := Some [''T'']\<rparr>)
       = Some (world0\<lparr>tag_list := Some [''T'']\<rparr>, None)
   \<and> (\<exists>w'. extract_tags (open_provider no_answer) ([] @ ''T'' # [''U''])
               (datetime 2019 4 7 12 0 0 0) (datetime 2019 4 7 12 0 5 0) (timedelta 0 0 0 2)
               False ''piadmin'' ''ONO-IMS'' (world0\<lparr>tag_list := Some [''T'']\<rparr>)
              = Some (w', Some FileNotFoundError))
   \<and> get_tags (world0\<lparr>tag_list := Some [''T'']\<rparr>) = Inr [''T'']
   \<and> (\<exists>w'. main (open_provider no_answer) args0 (world0\<lparr>tag_list := Some [''T'']\<rparr>)
              = Some (w', Raised FileNotFoundError))
   \<and> (\<exists>w'. main (open_provider no_answer)
               (args0\<lparr>psize := Some (timedelta 0 0 0 2),
                      subparser := Some (Se (datetime 2019 4 7 12 0 0 0)
                                            (datetime 2019 4 7 12 0 5 0))\<rparr>)
               (world0\<lparr>tag_list := Some [''T'']\<rparr>)
              = Some (w', Raised FileNotFoundError))"
proof -
  let ?a = "datetime 2019 4 7 12 0 0 0" and ?b = "datetime 2019 4 7 12 0 5 0"
  let ?d = "timedelta 0 0 0 2"
  let ?w = "world0\<lparr>tag_list := Some [''T'']\<rparr>" and ?p = "open_provider no_answer"
  let ?args = "args0\<lparr>psize := Some ?d, subparser := Some (Se ?a ?b)\<rparr>"
  have h1: "?p ''piadmin'' ''ONO-IMS'' = Inr no_answer" by (simp add: open_provider_def)
  have h2: "files ?w (output_name [] ''T'') = None" by (simp add: world0_fields)
  have h3: "0 < ?d" by (simp add: example_times)
  have h4: "?a \<le> ?a" by simp
  have lt: "?a \<le> ?b" by (simp add: example_times)
  have na: "\<not> answered no_answer ''T'' p" for p
    by (simp add: answered_def adodb_query_def no_answer_def)
  have gt: "get_tags ?w = Inr [''T'']" by (simp add: get_tags_def strip_def isspace_def)
  have b0: "extract_tags ?p [] ?a ?b ?d False ''piadmin'' ''ONO-IMS'' ?w = Some (?w, None)"
    by simp
  have ar: "resolve_window (subparser args0) = Inr (?a, ?a)"
    "psize args0 = Some (timedelta 1 0 0 0)"
    "user args0 = ''piadmin''" "server args0 = ''ONO-IMS''"
    by (simp_all add: args0_def resolve_window_def)
  have ar2: "resolve_window (subparser ?args) = Inr (?a, ?b)" "psize ?args = Some ?d"
    "user ?args = ''piadmin''" "server ?args = ''ONO-IMS''"
    by (simp_all add: args0_def resolve_window_def)
  have rp: "resolve_packet_size ?a ?b ?d = ?d"
    by (simp add: resolve_packet_size_def example_times)
  from missing_file_raises[where prov = ?p and usr = "''piadmin''" and srv = "''ONO-IMS''"
      and c = no_answer and w = ?w and ident = "[]" and tag = "''T''" and stop = ?a
      and start = ?a and delta = 0 and avg = False and a = args0
      and packet_size = "timedelta 1 0 0 0" and tags = "[]", OF h1 h2]
  have c1: "getTag ?p ''T'' ?a ?a [] 0 False ''piadmin'' ''ONO-IMS'' ?w
              = Some (?w, Inl FileNotFoundError)"
    and c3: "\<exists>w'. main ?p args0 ?w = Some (w', Raised FileNotFoundError)"
    using ar gt by simp_all
  from missing_file_raises[where prov = ?p and usr = "''piadmin''" and srv = "''ONO-IMS''"
      and c = no_answer and w = ?w and ident = "[]" and tag = "''T''" and stop = ?b
      and start = ?a and delta = ?d and avg = False and a = ?args
      and packet_size = ?d and tags = "[]" and before = "[]" and ?w0.0 = ?w
      and after = "[''U'']", OF h1 h2]
  have c2: "\<exists>w'. getTag ?p ''T'' ?a ?b [] ?d False ''piadmin'' ''ONO-IMS'' ?w
              = Some (w', Inl FileNotFoundError)"
    and c4: "\<exists>w'. extract_tags ?p ([] @ ''T'' # [''U'']) ?a ?b ?d False
                     ''piadmin'' ''ONO-IMS'' ?w = Some (w', Some FileNotFoundError)"
    and c5: "\<exists>w'. main ?p ?args ?w = Some (w', Raised FileNotFoundError)"
    using h3 na lt ar2 gt rp b0 by auto
  have la: "list_all (\<lambda>p. \<not> answered no_answer ''T'' p)
              (packet_bounds ?a ?d (packet_count ?a ?b ?d))"
    using na by (simp add: list_all_iff)
  from h1 h2 h4 c1 h3 la c2 b0 c4 gt c3 c5 show ?thesis by (intro conjI)
qed

text \<open>With the output file of an earlier run in place, the empty window from 12:00:00
  to 12:00:00 returns the flag for data, although the loop has not run and nothing has
  opened the file in this call.\<close>

theorem earlier_file_flag_counterexample:
  "getTag (open_provider no_answer) ''T'' (datetime 2019 4 7 12 0 0 0)
       (datetime 2019 4 7 12 0 0 0) [] 0 False ''piadmin'' ''ONO-IMS'' world1
     = Some (world1, Inr False)
   \<and> map_option queries
        (packet_loop no_answer ''T'' ''T.txt'' (datetime 2019 4 7 12 0 0 0) 0 False
           (datetime 2019 4 7 12 0 0 0) world1) = Some []"
  by (simp add: getTag_def abodb_connect_def open_provider_def output_name_T
      packet_loop_empty_window size_check_def world1_fields)

end
